theory Spec2Isabelle
  imports Main "HOL-Library.Multiset" "HOL-Library.Sublist"
begin

section \<open>Strings\<close>

text \<open>
  A JavaScript string is modelled as a \<^typ>\<open>string\<close>: a list of code units, here the
  code units below 256. Of the four ECMAScript line terminators (LF, CR, U+2028, U+2029)
  the first two are in that range.
\<close>

definition is_digit :: "char \<Rightarrow> bool" where
  "is_digit c = (c \<in> set ''0123456789'')"

definition line_terminator :: "char \<Rightarrow> bool" where
  "line_terminator c = (c = CHR 0x0A \<or> c = CHR 0x0D)"

section \<open>Number(...) on a string of decimal digits\<close>

text \<open>
  \<^verbatim>\<open>Number(s)\<close> of a string of decimal digits is the double nearest to the decimal
  value, and \<^verbatim>\<open>Infinity\<close> from \<open>2^1024 - 2^970\<close> on (the midpoint between the largest
  double and \<open>2^1024\<close> rounds up). The classifier only asks of such a number whether it is
  an integer (every finite double this large is, \<^verbatim>\<open>Infinity\<close> is not) and whether it is
  \<open>0\<close> (rounding never turns a positive integer into zero), so the model keeps the decimal
  value itself for a finite result.
\<close>

datatype js_number = Num int | PosInfinity

definition digit_val :: "char \<Rightarrow> int" where
  "digit_val c = int (of_char c) - 48"

definition dec_value :: "string \<Rightarrow> int" where
  "dec_value ds = foldl (\<lambda>n c. 10 * n + digit_val c) 0 ds"

definition Number :: "string \<Rightarrow> js_number" where
  "Number ds = (if dec_value ds < 2 ^ 1024 - 2 ^ 970 then Num (dec_value ds) else PosInfinity)"

fun isInteger :: "js_number \<Rightarrow> bool" where
  "isInteger (Num n) = True"
| "isInteger PosInfinity = False"

section \<open>The release classifier\<close>

text \<open>
  \<^verbatim>\<open>/^v?(?<major>\d+)\.(?<minor>\d+)(?:\.(?<patch>\d+))?(?<suffix>[-+].*)?$/\<close>

  The pattern is anchored at both ends and has no flags: \<^verbatim>\<open>\d\<close> is an ASCII digit,
  \<^verbatim>\<open>.\<close> is any character but a line terminator, \<^verbatim>\<open>$\<close> is the end of the input.
  Backtracking never finds a second way to match: a shorter run of digits leaves a digit
  where the pattern wants \<^verbatim>\<open>.\<close>, a sign or the end. So the match is read off from left
  to right, each \<^verbatim>\<open>\d+\<close> taking the longest run of digits.
\<close>

record semver_groups =
  major :: string
  minor :: string
  patch :: "string option"
  suffix :: "string option"

definition opt_v :: "string \<Rightarrow> string" where
  \<comment> \<open>\<^verbatim>\<open>v?\<close>\<close>
  "opt_v s = (case s of [] \<Rightarrow> [] | c # r \<Rightarrow> if c = CHR ''v'' then r else s)"

definition opt_patch :: "string \<Rightarrow> string option \<times> string" where
  \<comment> \<open>\<^verbatim>\<open>(?:\.(?<patch>\d+))?\<close>: the group and what is left of the input\<close>
  "opt_patch s =
     (case s of
        [] \<Rightarrow> (None, s)
      | c # r \<Rightarrow>
          if c = CHR ''.'' \<and> takeWhile is_digit r \<noteq> []
          then (Some (takeWhile is_digit r), dropWhile is_digit r)
          else (None, s))"

definition opt_suffix :: "string \<Rightarrow> string option option" where
  \<comment> \<open>\<^verbatim>\<open>(?<suffix>[-+].*)?$\<close>: \<open>None\<close> when the rest of the input does not match\<close>
  "opt_suffix s =
     (case s of
        [] \<Rightarrow> Some None
      | c # r \<Rightarrow>
          if (c = CHR ''-'' \<or> c = CHR ''+'') \<and> \<not> list_ex line_terminator r
          then Some (Some s) else None)"

definition semver_match :: "string \<Rightarrow> semver_groups option" where
  "semver_match tag =
     (let s0 = opt_v tag;
          mj = takeWhile is_digit s0;
          s1 = dropWhile is_digit s0
      in if mj = [] then None
         else case s1 of
           [] \<Rightarrow> None
         | d # s2 \<Rightarrow>
             if d \<noteq> CHR ''.'' then None
             else let mi = takeWhile is_digit s2;
                      s3 = dropWhile is_digit s2
                  in if mi = [] then None
                     else case opt_patch s3 of
                       (p, s4) \<Rightarrow>
                         (case opt_suffix s4 of
                            None \<Rightarrow> None
                          | Some sf \<Rightarrow>
                              Some \<lparr>major = mj, minor = mi, patch = p, suffix = sf\<rparr>))"

definition patchNumber_of :: "string option \<Rightarrow> js_number" where
  \<comment> \<open>\<^verbatim>\<open>patch ? Number(patch) : 0\<close>\<close>
  "patchNumber_of p = (case p of None \<Rightarrow> Num 0 | Some ds \<Rightarrow> if ds = [] then Num 0 else Number ds)"

definition isMajorOrMinorRelease :: "string option \<Rightarrow> bool" where
  "isMajorOrMinorRelease tag =
     (case tag of
        None \<Rightarrow> False
      | Some t \<Rightarrow>
          (if t = [] then False
           else (case semver_match t of
                   None \<Rightarrow> False
                 | Some g \<Rightarrow>
                     (let majorNumber = Number (major g);
                          minorNumber = Number (minor g);
                          patchNumber = patchNumber_of (patch g)
                      in if \<not> list_all isInteger [majorNumber, minorNumber, patchNumber]
                         then False
                         else patchNumber = Num 0))))"

section \<open>Configuration\<close>

text \<open>
  \<^verbatim>\<open>interface RepoConfig { slug: string; maxReleases?: number }\<close>

  An entry of the configuration comes from \<^verbatim>\<open>JSON.parse\<close>: a string, an object or
  anything else. An object may lack a string-valued \<^verbatim>\<open>slug\<close> and may carry properties the
  interface does not name; \<open>cfg_includePatchReleases\<close> is such a property, carried here so
  that what the code does with it can be stated. Numbers are integers in this model.
\<close>

record RepoConfig =
  cfg_slug :: "string option"
  cfg_maxReleases :: "int option"
  cfg_includePatchReleases :: "bool option"

datatype config_entry = EntryString string | EntryObject RepoConfig | EntryOther

record NormalizedRepoConfig =
  slug :: string
  maxReleases :: int

datatype fatal_error = ConfigError string | InvalidEntry config_entry | WriteError string

definition DEFAULT_MAX_RELEASES_PER_REPO :: int where
  "DEFAULT_MAX_RELEASES_PER_REPO = 10"

datatype parsed_config = NoRepositoriesArray | RepositoriesArray "config_entry list"

datatype config_file = ReadThrows string | Parsed parsed_config

definition loadRepoList :: "string \<Rightarrow> config_file \<Rightarrow> fatal_error + config_entry list" where
  \<comment> \<open>\<open>CONFIG_FILE\<close> is the path of \<^verbatim>\<open>repos.json\<close>; the \<^verbatim>\<open>catch\<close> wraps both failures\<close>
  \<open>loadRepoList CONFIG_FILE file =
     (let failed = (\<lambda>message.
            Inl (ConfigError
              (''Failed to read repository config from '' @ CONFIG_FILE @ '': '' @ message)))
      in case file of
           ReadThrows message \<Rightarrow> failed message
         | Parsed NoRepositoriesArray \<Rightarrow> failed ''Config must contain a "repositories" array.''
         | Parsed (RepositoriesArray entries) \<Rightarrow> Inr entries)\<close>

fun parseConfigEntry :: "config_entry \<Rightarrow> fatal_error + NormalizedRepoConfig" where
  "parseConfigEntry (EntryString s) =
     Inr \<lparr>slug = s, maxReleases = DEFAULT_MAX_RELEASES_PER_REPO\<rparr>"
| "parseConfigEntry (EntryObject entry) =
     (case cfg_slug entry of
        Some s \<Rightarrow>
          Inr \<lparr>slug = s,
               maxReleases = (case cfg_maxReleases entry of
                                Some n \<Rightarrow> n
                              | None \<Rightarrow> DEFAULT_MAX_RELEASES_PER_REPO)\<rparr>
      | None \<Rightarrow> Inl (InvalidEntry (EntryObject entry)))"
| "parseConfigEntry EntryOther = Inl (InvalidEntry EntryOther)"

fun parseConfigEntries :: "config_entry list \<Rightarrow> fatal_error + NormalizedRepoConfig list" where
  \<comment> \<open>\<^verbatim>\<open>rawEntries.map(parseConfigEntry)\<close>: the first entry that throws ends the map\<close>
  "parseConfigEntries [] = Inr []"
| "parseConfigEntries (e # es) =
     (case parseConfigEntry e of
        Inl err \<Rightarrow> Inl err
      | Inr c \<Rightarrow>
          (case parseConfigEntries es of
             Inl err \<Rightarrow> Inl err
           | Inr cs \<Rightarrow> Inr (c # cs)))"

section \<open>Releases and feed items\<close>

text \<open>
  The fields follow \<^verbatim>\<open>interface GitHubRelease\<close> and \<^verbatim>\<open>interface FeedItem\<close>; an optional
  field (\<^verbatim>\<open>?:\<close>) is an \<open>option\<close>, \<open>None\<close> for \<^verbatim>\<open>undefined\<close> and \<^verbatim>\<open>null\<close> alike,
  which \<^verbatim>\<open>??\<close> and \<^verbatim>\<open>!\<close> do not tell apart. \<^verbatim>\<open>html_url\<close> is declared \<^verbatim>\<open>string\<close>,
  so the right-hand side of \<^verbatim>\<open>release.html_url ?? ...\<close> is never taken.
\<close>

record GitHubRelease =
  rel_id :: int
  html_url :: string
  tag_name :: "string option"
  rel_name :: "string option"
  body :: "string option"
  draft :: bool
  prerelease :: bool
  published_at :: "string option"
  created_at :: "string option"

record FeedItem =
  repoSlug :: string
  htmlUrl :: string
  tagName :: string
  publishedAt :: "string option"
  descriptionHtml :: string
  item_id :: string
  item_name :: string

section \<open>String operations of the runtime\<close>

definition is_space :: "char \<Rightarrow> bool" where
  \<comment> \<open>white space and line terminators, as \<^verbatim>\<open>trim\<close> and \<^verbatim>\<open>\s\<close> read them\<close>
  "is_space c = (c \<in> set [CHR 0x09, CHR 0x0A, CHR 0x0B, CHR 0x0C, CHR 0x0D, CHR 0x20, CHR 0xA0])"

definition trim :: "string \<Rightarrow> string" where
  "trim s = rev (dropWhile is_space (rev (dropWhile is_space s)))"

definition starts_with :: "string \<Rightarrow> string \<Rightarrow> bool" where
  "starts_with p s = (take (length p) s = p)"

definition endsWith :: "string \<Rightarrow> string \<Rightarrow> bool" where
  "endsWith s p = (length p \<le> length s \<and> drop (length s - length p) s = p)"

fun split_on :: "char \<Rightarrow> string \<Rightarrow> string list" where
  \<comment> \<open>\<^verbatim>\<open>s.split(c)\<close>: never empty\<close>
  "split_on sep [] = [[]]"
| "split_on sep (c # cs) =
     (if c = sep then [] # split_on sep cs
      else (case split_on sep cs of
              [] \<Rightarrow> [[c]]
            | w # ws \<Rightarrow> (c # w) # ws))"

definition join :: "string \<Rightarrow> string list \<Rightarrow> string" where
  "join sep xs = (case xs of [] \<Rightarrow> [] | y # ys \<Rightarrow> y @ concat (map (\<lambda>z. sep @ z) ys))"

definition digit_char :: "nat \<Rightarrow> char" where
  "digit_char d = char_of (48 + d)"

function string_of_nat :: "nat \<Rightarrow> string" where
  "string_of_nat n =
     (if n < 10 then [digit_char n] else string_of_nat (n div 10) @ [digit_char (n mod 10)])"
  by pat_completeness auto
termination
  by (relation "measure id") auto

text \<open>
  \<^verbatim>\<open>s.replace(/pattern/g, replacement)\<close>: the input is scanned from the left; where the
  pattern matches, the replacement is written and the scan goes on behind the match. A
  pattern is given by the length of its match at the head of the rest of the input. None of
  the replacements of this program holds a \<^verbatim>\<open>$\<close>.
\<close>

function replace_all :: "(string \<Rightarrow> nat option) \<Rightarrow> string \<Rightarrow> string \<Rightarrow> string" where
  "replace_all m rep s =
     (case s of
        [] \<Rightarrow> (case m [] of Some _ \<Rightarrow> rep | None \<Rightarrow> [])
      | c # cs \<Rightarrow>
          (case m s of
             None \<Rightarrow> c # replace_all m rep cs
           | Some n \<Rightarrow>
               (if n = 0 then rep @ c # replace_all m rep cs
                else rep @ replace_all m rep (drop n s))))"
  by pat_completeness auto
termination
  by (relation "measure (\<lambda>(m, rep, s). length s)") auto

definition lit :: "string \<Rightarrow> string \<Rightarrow> nat option" where
  \<comment> \<open>a pattern that is a literal text\<close>
  "lit p s = (if starts_with p s then Some (length p) else None)"

definition upper :: "char \<Rightarrow> char" where
  "upper c = (if c \<in> set ''abcdefghijklmnopqrstuvwxyz'' then char_of (of_char c - (32::nat)) else c)"

definition lit_i :: "string \<Rightarrow> string \<Rightarrow> nat option" where
  \<comment> \<open>a literal text under the flag \<^verbatim>\<open>i\<close>\<close>
  "lit_i p s = (if starts_with (map upper p) (map upper s) then Some (length p) else None)"

fun find_i :: "string \<Rightarrow> string \<Rightarrow> nat option" where
  \<comment> \<open>where the literal \<open>p\<close> first matches in \<open>s\<close>, under the flag \<^verbatim>\<open>i\<close>\<close>
  "find_i p [] = (if p = [] then Some 0 else None)"
| "find_i p (c # cs) =
     (if lit_i p (c # cs) \<noteq> None then Some 0 else map_option Suc (find_i p cs))"

definition block_i :: "string \<Rightarrow> string \<Rightarrow> string \<Rightarrow> nat option" where
  \<comment> \<open>\<^verbatim>\<open>/open[\s\S]*?close/i\<close>: from \<open>open\<close> to the first \<open>close\<close> behind it\<close>
  "block_i opn cls s =
     (case lit_i opn s of
        None \<Rightarrow> None
      | Some k \<Rightarrow>
          (case find_i cls (drop k s) of
             None \<Rightarrow> None
           | Some j \<Rightarrow> Some (k + j + length cls)))"

definition any_tag :: "string \<Rightarrow> nat option" where
  \<comment> \<open>\<^verbatim>\<open>/<[^>]+>/\<close>\<close>
  "any_tag s =
     (case s of
        [] \<Rightarrow> None
      | c # cs \<Rightarrow>
          (let inner = takeWhile (\<lambda>x. x \<noteq> CHR ''>'') cs
           in if c = CHR ''<'' \<and> inner \<noteq> [] \<and> length inner < length cs
              then Some (length inner + 2) else None))"

definition spaces :: "string \<Rightarrow> nat option" where
  \<comment> \<open>\<^verbatim>\<open>/\s+/\<close>\<close>
  "spaces s = (let run = takeWhile is_space s in if run = [] then None else Some (length run))"

section \<open>Fetching the releases of one repository\<close>

text \<open>
  The remote API is a parameter: what \<^verbatim>\<open>fetch\<close> and \<^verbatim>\<open>response.json()\<close> give for a
  request. Either may throw; a response has \<^verbatim>\<open>ok\<close>, \<^verbatim>\<open>status\<close> and \<^verbatim>\<open>statusText\<close>, and its
  body is a list of releases or some other value. \<^verbatim>\<open>marked.parse\<close> is a parameter too.
\<close>

record request =
  req_owner :: string
  req_repo :: string
  per_page :: int
  authorization :: "string option"

datatype json_body = JsonThrows string | NotAnArray | ReleaseArray "GitHubRelease list"

datatype fetch_outcome = FetchThrows string | Response bool nat string json_body

datatype target_error =
    SlugFormat string
  | RequestFailed string nat string
  | UnexpectedFormat string
  | Thrown string

fun message :: "target_error \<Rightarrow> string" where
  \<open>message (SlugFormat s) = ''Repository slug "'' @ s @ ''" must be in "owner/name" format.''\<close>
| "message (RequestFailed s status statusText) =
     ''GitHub API request failed for '' @ s @ '': '' @ string_of_nat status @ '' '' @ statusText"
| "message (UnexpectedFormat s) = ''Unexpected response format for '' @ s"
| "message (Thrown m) = m"

definition slice0 :: "int \<Rightarrow> 'a list \<Rightarrow> 'a list" where
  \<comment> \<open>\<^verbatim>\<open>xs.slice(0, n)\<close>: a negative \<open>n\<close> counts from the end\<close>
  "slice0 n xs = (if n < 0 then take (nat (int (length xs) + n)) xs else take (nat n) xs)"

definition renderMarkdownToHtml :: "(string \<Rightarrow> string) \<Rightarrow> string \<Rightarrow> string" where
  "renderMarkdownToHtml marked markdown =
     (let trimmed = trim markdown
      in if trimmed = [] then [] else trim (marked trimmed))"

definition template :: "string option \<Rightarrow> string" where
  \<comment> \<open>an optional string inside a template literal\<close>
  "template v = (case v of None \<Rightarrow> ''undefined'' | Some x \<Rightarrow> x)"

definition qualifies :: "GitHubRelease \<Rightarrow> bool" where
  \<comment> \<open>the two \<^verbatim>\<open>filter\<close> calls\<close>
  "qualifies release =
     ((\<not> draft release \<and> \<not> prerelease release) \<and> isMajorOrMinorRelease (tag_name release))"

definition toFeedItem :: "(string \<Rightarrow> string) \<Rightarrow> string \<Rightarrow> GitHubRelease \<Rightarrow> FeedItem" where
  \<comment> \<open>the callback of \<^verbatim>\<open>map\<close>\<close>
  "toFeedItem marked s release =
     \<lparr>repoSlug = s,
      htmlUrl = html_url release,
      tagName = (case tag_name release of Some t \<Rightarrow> t | None \<Rightarrow> ''unknown''),
      publishedAt = (case published_at release of Some p \<Rightarrow> Some p | None \<Rightarrow> created_at release),
      descriptionHtml =
        renderMarkdownToHtml marked (case body release of Some b \<Rightarrow> b | None \<Rightarrow> []),
      item_id = html_url release,
      item_name = (case rel_name release of
                     Some n \<Rightarrow> n
                   | None \<Rightarrow> s @ '' '' @ template (tag_name release))\<rparr>"

definition slugOwner :: "string \<Rightarrow> string" where
  \<comment> \<open>\<^verbatim>\<open>const [owner, repo] = slug.split('/')\<close>; the empty text stands for \<^verbatim>\<open>undefined\<close> too\<close>
  "slugOwner s = (case split_on CHR ''/'' s of [] \<Rightarrow> [] | x # _ \<Rightarrow> x)"

definition slugRepo :: "string \<Rightarrow> string" where
  "slugRepo s = (case split_on CHR ''/'' s of _ # y # _ \<Rightarrow> y | _ \<Rightarrow> [])"

definition releasesRequest :: "string option \<Rightarrow> NormalizedRepoConfig \<Rightarrow> request" where
  \<comment> \<open>the URL with its \<^verbatim>\<open>per_page\<close> and the \<^verbatim>\<open>Authorization\<close> header\<close>
  "releasesRequest token cfg =
     \<lparr>req_owner = slugOwner (slug cfg),
      req_repo = slugRepo (slug cfg),
      per_page = min (maxReleases cfg * 2) 50,
      authorization = (case token of
                         None \<Rightarrow> None
                       | Some t \<Rightarrow> if t = [] then None else Some (''Bearer '' @ t))\<rparr>"

definition feedItemsOf ::
  "(string \<Rightarrow> string) \<Rightarrow> NormalizedRepoConfig \<Rightarrow> GitHubRelease list \<Rightarrow> FeedItem list" where
  \<comment> \<open>\<^verbatim>\<open>releases.filter(...).filter(...).slice(0, maxReleases).map(...)\<close>\<close>
  "feedItemsOf marked cfg releases =
     map (toFeedItem marked (slug cfg)) (slice0 (maxReleases cfg) (filter qualifies releases))"

definition fetchReleasesForRepo ::
  "(string \<Rightarrow> string) \<Rightarrow> string option \<Rightarrow> (request \<Rightarrow> fetch_outcome) \<Rightarrow>
   NormalizedRepoConfig \<Rightarrow> target_error + FeedItem list" where
  "fetchReleasesForRepo marked token api cfg =
     (if slugOwner (slug cfg) = [] \<or> slugRepo (slug cfg) = [] then Inl (SlugFormat (slug cfg))
      else (case api (releasesRequest token cfg) of
              FetchThrows m \<Rightarrow> Inl (Thrown m)
            | Response ok status statusText json \<Rightarrow>
                (if \<not> ok then Inl (RequestFailed (slug cfg) status statusText)
                 else (case json of
                         JsonThrows m \<Rightarrow> Inl (Thrown m)
                       | NotAnArray \<Rightarrow> Inl (UnexpectedFormat (slug cfg))
                       | ReleaseArray releases \<Rightarrow> Inr (feedItemsOf marked cfg releases)))))"

section \<open>Text of the feed\<close>

definition escapeXml :: "string \<Rightarrow> string" where
  "escapeXml v =
     replace_all (lit [CHR 0x27]) ''&apos;''
       (replace_all (lit [CHR 0x22]) ''&quot;''
         (replace_all (lit ''>'') ''&gt;''
           (replace_all (lit ''<'') ''&lt;''
             (replace_all (lit ''&'') ''&amp;'' v))))"

definition wrapInCdata :: "string \<Rightarrow> string \<Rightarrow> string" where
  "wrapInCdata elementName v =
     (let safeValue = replace_all (lit '']]>'') '']]]]><![CDATA[>'' v
      in ''<'' @ elementName @ ''><![CDATA['' @ safeValue @ '']]></'' @ elementName @ ''>'')"

definition stripHtmlTags :: "string \<Rightarrow> string" where
  "stripHtmlTags v =
     trim
       (replace_all spaces '' ''
         (replace_all (lit_i ''&nbsp;'') '' ''
           (replace_all any_tag '' ''
             (replace_all (block_i ''<style'' ''</style>'') '' ''
               (replace_all (block_i ''<script'' ''</script>'') '' '' v)))))"

definition buildSummary :: "string \<Rightarrow> string" where
  "buildSummary html =
     (let fallback = ''No release notes provided.''
      in if html = [] then fallback
         else (let text = stripHtmlTags html
               in if text = [] then fallback
                  else if length text \<le> 300 then text
                  else trim (take (300 - 3) text) @ ''...''))"

definition buildFeedUrl :: "string \<Rightarrow> string" where
  "buildFeedUrl siteLink =
     (let normalized = (if endsWith siteLink ''/'' then siteLink else siteLink @ ''/'')
      in normalized @ ''feed.xml'')"

definition SITE_TITLE :: string where
  "SITE_TITLE = ''Major & Minor Releases Feed''"

definition SITE_DESCRIPTION :: string where
  "SITE_DESCRIPTION =
     ''Aggregated RSS feed with the latest major/minor releases from selected GitHub repositories.''"

definition SITE_LINK :: string where
  "SITE_LINK = ''https://example.com/rss''"

definition SITE_LANGUAGE :: string where
  "SITE_LANGUAGE = ''en''"

definition SITE_TTL :: nat where
  "SITE_TTL = 180"

definition SITE_GENERATOR :: string where
  "SITE_GENERATOR = ''repo-rss generator''"

section \<open>Dates\<close>

text \<open>
  A time value is a number of milliseconds since the epoch, \<open>None\<close> for \<^verbatim>\<open>NaN\<close>.
  \<^verbatim>\<open>Date.prototype.toUTCString\<close> is written out; \<^verbatim>\<open>Date.parse\<close> stays a parameter.
\<close>

definition civil_from_days :: "int \<Rightarrow> int \<times> int \<times> int" where
  \<comment> \<open>year, month (1 to 12) and day of the month of a day number (day 0 is 1 January 1970)\<close>
  "civil_from_days z0 =
     (let z = z0 + 719468;
          era = z div 146097;
          doe = z - era * 146097;
          yoe = (doe - doe div 1460 + doe div 36524 - doe div 146096) div 365;
          doy = doe - (365 * yoe + yoe div 4 - yoe div 100);
          mp = (5 * doy + 2) div 153;
          d = doy - (153 * mp + 2) div 5 + 1;
          m = (if mp < 10 then mp + 3 else mp - 9);
          y = yoe + era * 400 + (if m \<le> 2 then 1 else 0)
      in (y, m, d))"

definition pad :: "nat \<Rightarrow> int \<Rightarrow> string" where
  "pad w i = (let ds = string_of_nat (nat i) in replicate (w - length ds) CHR ''0'' @ ds)"

definition weekday_name :: "int \<Rightarrow> string" where
  "weekday_name d = [''Sun'', ''Mon'', ''Tue'', ''Wed'', ''Thu'', ''Fri'', ''Sat''] ! nat (d mod 7)"

definition month_name :: "int \<Rightarrow> string" where
  "month_name m =
     [''Jan'', ''Feb'', ''Mar'', ''Apr'', ''May'', ''Jun'',
      ''Jul'', ''Aug'', ''Sep'', ''Oct'', ''Nov'', ''Dec''] ! nat ((m - 1) mod 12)"

definition toUTCString :: "int option \<Rightarrow> string" where
  "toUTCString tv =
     (case tv of
        None \<Rightarrow> ''Invalid Date''
      | Some t \<Rightarrow>
          (let day = t div 86400000;
               ms = t mod 86400000
           in case civil_from_days day of
                (y, m, d) \<Rightarrow>
                  weekday_name (day + 4) @ '', '' @ pad 2 d @ '' '' @ month_name m @ '' '' @
                  (if y < 0 then ''-'' else []) @ pad 4 (abs y) @ '' '' @
                  pad 2 (ms div 3600000) @ '':'' @ pad 2 (ms div 60000 mod 60) @ '':'' @
                  pad 2 (ms div 1000 mod 60) @ '' GMT''))"

definition formatRssDate :: "(string \<Rightarrow> int option) \<Rightarrow> int \<Rightarrow> string option \<Rightarrow> string" where
  \<comment> \<open>\<open>now\<close> is what \<^verbatim>\<open>new Date()\<close> reads off the clock in this call\<close>
  "formatRssDate date_parse now isoDate =
     (case isoDate of
        None \<Rightarrow> toUTCString (Some now)
      | Some d \<Rightarrow> if d = [] then toUTCString (Some now) else toUTCString (date_parse d))"

section \<open>Assembling the feed\<close>

text \<open>
  \<^verbatim>\<open>new Date(item.publishedAt ?? 0).getTime()\<close>: the epoch for an item with no timestamp,
  \<^verbatim>\<open>Date.parse\<close> of the text otherwise (\<^verbatim>\<open>NaN\<close> when it is no date).
\<close>

definition getTime :: "(string \<Rightarrow> int option) \<Rightarrow> FeedItem \<Rightarrow> int option" where
  "getTime date_parse item =
     (case publishedAt item of None \<Rightarrow> Some 0 | Some d \<Rightarrow> date_parse d)"

definition compareItems :: "(string \<Rightarrow> int option) \<Rightarrow> FeedItem \<Rightarrow> FeedItem \<Rightarrow> int option" where
  \<comment> \<open>the comparator handed to \<^verbatim>\<open>sort\<close>; \<open>None\<close> is \<^verbatim>\<open>NaN\<close>\<close>
  "compareItems date_parse a b =
     (case getTime date_parse b of
        None \<Rightarrow> None
      | Some tb \<Rightarrow>
          (case getTime date_parse a of
             None \<Rightarrow> None
           | Some ta \<Rightarrow> Some (tb - ta)))"

text \<open>
  \<^verbatim>\<open>Array.prototype.sort\<close> is stable, and reads a comparator's \<^verbatim>\<open>NaN\<close> as \<open>0\<close>. For a
  comparator that orders the elements consistently every engine gives the one stable
  sorted list, which insertion from the right computes. When a timestamp does not parse
  the comparator is not consistent and ECMAScript leaves the order to the engine; the
  model then still inserts from the right.
\<close>

definition not_after :: "int option \<Rightarrow> bool" where
  "not_after v = (case v of None \<Rightarrow> True | Some d \<Rightarrow> d \<le> 0)"

fun insert_by :: "('a \<Rightarrow> 'a \<Rightarrow> int option) \<Rightarrow> 'a \<Rightarrow> 'a list \<Rightarrow> 'a list" where
  "insert_by cmp x [] = [x]"
| "insert_by cmp x (y # ys) =
     (if not_after (cmp x y) then x # y # ys else y # insert_by cmp x ys)"

definition array_sort :: "('a \<Rightarrow> 'a \<Rightarrow> int option) \<Rightarrow> 'a list \<Rightarrow> 'a list" where
  "array_sort cmp xs = foldr (insert_by cmp) xs []"

definition truthy :: "string option list \<Rightarrow> string list" where
  \<comment> \<open>\<^verbatim>\<open>.filter(Boolean)\<close> on strings and \<^verbatim>\<open>undefined\<close>\<close>
  "truthy ls = filter (\<lambda>l. l \<noteq> []) (List.map_filter id ls)"

definition contentElement :: "FeedItem \<Rightarrow> string" where
  "contentElement item =
     (let contentHtml = (if descriptionHtml item \<noteq> [] then descriptionHtml item
                         else ''<p>No release notes provided.</p>'')
      in wrapInCdata ''content:encoded'' contentHtml)"

definition renderItem :: "(string \<Rightarrow> int option) \<Rightarrow> int \<Rightarrow> FeedItem \<Rightarrow> string" where
  \<comment> \<open>the callback of \<^verbatim>\<open>map\<close> in \<^verbatim>\<open>buildRssFeed\<close>; \<open>now\<close> is the clock as this call reads it\<close>
  \<open>renderItem date_parse now item =
     (let title = repoSlug item @ '' '' @ tagName item;
          summary = buildSummary (descriptionHtml item);
          descriptionElement = ''<description>'' @ escapeXml summary @ ''</description>'';
          owner = slugOwner (repoSlug item);
          repo = slugRepo (repoSlug item);
          repoUrl = ''https://github.com/'' @ repoSlug item
      in join [CHR 0x0A]
           (truthy
             [Some ''    <item>'',
              Some (''      <title>'' @ escapeXml title @ ''</title>''),
              Some (''      <link>'' @ escapeXml (htmlUrl item) @ ''</link>''),
              Some (''      <guid'' @
                    (if item_id item = htmlUrl item then '' isPermaLink="true"''
                     else '' isPermaLink="false"'') @
                    ''>'' @ escapeXml (item_id item) @ ''</guid>''),
              Some (''      <pubDate>'' @
                    escapeXml (formatRssDate date_parse now (publishedAt item)) @
                    ''</pubDate>''),
              Some (''      '' @ descriptionElement),
              Some (''      '' @ contentElement item),
              (if owner \<noteq> [] then Some (''      <category>'' @ escapeXml owner @ ''</category>'')
               else None),
              (if repo \<noteq> [] then Some (''      <category>'' @ escapeXml repo @ ''</category>'')
               else None),
              Some (''      <source url="'' @ escapeXml repoUrl @ ''">'' @
                    escapeXml (repoSlug item) @ ''</source>''),
              Some ''    </item>'']))\<close>

definition sortItems :: "(string \<Rightarrow> int option) \<Rightarrow> FeedItem list \<Rightarrow> FeedItem list" where
  "sortItems date_parse items = array_sort (compareItems date_parse) items"

text \<open>
  The clock is read once for each item that has no timestamp and once for the build
  timestamp: \<open>item_clock i\<close> is the reading in the call for the item at position \<open>i\<close> of the
  sorted list, \<open>build_clock\<close> the later one. \<^verbatim>\<open>new Date(new Date().toISOString())\<close> is the
  time value \<^verbatim>\<open>new Date()\<close> read.
\<close>

definition lastBuildDate :: "int \<Rightarrow> string" where
  "lastBuildDate build_clock =
     ''    <lastBuildDate>'' @ escapeXml (toUTCString (Some build_clock)) @ ''</lastBuildDate>''"

definition feedItems ::
  "(string \<Rightarrow> int option) \<Rightarrow> (nat \<Rightarrow> int) \<Rightarrow> FeedItem list \<Rightarrow> string" where
  \<comment> \<open>\<^verbatim>\<open>items.sort(...).map(...).join('')\<close>\<close>
  "feedItems date_parse item_clock items =
     concat (map (\<lambda>(i, item). renderItem date_parse (item_clock i) item)
               (enumerate 0 (sortItems date_parse items)))"

definition channelOpening :: "string list" where
  \<comment> \<open>the lines of the document above the build timestamp\<close>
  \<open>channelOpening =
     (let feedUrl = buildFeedUrl SITE_LINK
      in [''<?xml version="1.0" encoding="UTF-8"?>'',
          ''<rss version="2.0"'',
          ''  xmlns:atom="http://www.w3.org/2005/Atom"'',
          ''  xmlns:content="http://purl.org/rss/1.0/modules/content/">'',
          ''  <channel>'',
          ''    <title>'' @ escapeXml SITE_TITLE @ ''</title>'',
          ''    <link>'' @ escapeXml SITE_LINK @ ''</link>'',
          ''    <atom:link href="'' @ escapeXml feedUrl @
            ''" rel="self" type="application/rss+xml" />'',
          ''    <description>'' @ escapeXml SITE_DESCRIPTION @ ''</description>'',
          ''    <language>'' @ escapeXml SITE_LANGUAGE @ ''</language>'',
          ''    <docs>https://www.rssboard.org/rss-specification</docs>'',
          ''    <generator>'' @ escapeXml SITE_GENERATOR @ ''</generator>''])\<close>

definition buildRssFeed ::
  "(string \<Rightarrow> int option) \<Rightarrow> (nat \<Rightarrow> int) \<Rightarrow> int \<Rightarrow> FeedItem list \<Rightarrow> string" where
  "buildRssFeed date_parse item_clock build_clock items =
     join [CHR 0x0A]
       (channelOpening @
        [lastBuildDate build_clock,
         ''    <ttl>'' @ string_of_nat SITE_TTL @ ''</ttl>'',
         feedItems date_parse item_clock items,
         ''  </channel>'',
         ''</rss>'',
         []])"

section \<open>The earlier serializer\<close>

text \<open>
  The source file holds an earlier \<^verbatim>\<open>buildRssFeed\<close> as well (lines 188 to 221), with
  its own \<^verbatim>\<open>FeedItem\<close> (lines 41 to 49) and its own callback of \<^verbatim>\<open>map\<close> (lines 134 to
  142). It keeps the body of the release as it is and writes it into one CDATA section of
  the \<^verbatim>\<open>description\<close> element. \<^verbatim>\<open>String(release.id)\<close> is the decimal text of the
  number, an integer below \<open>10^21\<close> in size.
\<close>

record FirstFeedItem =
  first_repoSlug :: string
  first_htmlUrl :: string
  first_tagName :: string
  first_publishedAt :: "string option"
  first_description :: string
  first_id :: string
  first_name :: string

definition string_of_int :: "int \<Rightarrow> string" where
  "string_of_int i = (if i < 0 then CHR ''-'' # string_of_nat (nat (- i)) else string_of_nat (nat i))"

definition toFirstFeedItem :: "string \<Rightarrow> GitHubRelease \<Rightarrow> FirstFeedItem" where
  "toFirstFeedItem s release =
     \<lparr>first_repoSlug = s,
      first_htmlUrl = html_url release,
      first_tagName = (case tag_name release of Some t \<Rightarrow> t | None \<Rightarrow> ''unknown''),
      first_publishedAt =
        (case published_at release of Some p \<Rightarrow> Some p | None \<Rightarrow> created_at release),
      first_description = (case body release of Some b \<Rightarrow> b | None \<Rightarrow> []),
      first_id = string_of_int (rel_id release),
      first_name = (case rel_name release of
                      Some n \<Rightarrow> n
                    | None \<Rightarrow> s @ '' '' @ template (tag_name release))\<rparr>"

definition firstDescription :: "string \<Rightarrow> string" where
  \<comment> \<open>the \<^verbatim>\<open>description\<close> of lines 195 to 197, from \<^verbatim>\<open>item.description\<close>\<close>
  "firstDescription d =
     (if d \<noteq> [] then ''<description><![CDATA['' @ d @ '']]></description>''
      else ''<description>No release notes provided.</description>'')"

definition firstRenderItem :: "(string \<Rightarrow> int option) \<Rightarrow> int \<Rightarrow> FirstFeedItem \<Rightarrow> string" where
  \<open>firstRenderItem date_parse now item =
     (let title = first_repoSlug item @ '' '' @ first_tagName item;
          description = firstDescription (first_description item)
      in [CHR 0x0A] @
         ''    <item>'' @ [CHR 0x0A] @
         ''      <title>'' @ escapeXml title @ ''</title>'' @ [CHR 0x0A] @
         ''      <link>'' @ escapeXml (first_htmlUrl item) @ ''</link>'' @ [CHR 0x0A] @
         ''      <guid isPermaLink="false">'' @ escapeXml (first_id item) @ ''</guid>'' @
         [CHR 0x0A] @
         ''      <pubDate>'' @
         escapeXml (formatRssDate date_parse now (first_publishedAt item)) @
         ''</pubDate>'' @ [CHR 0x0A] @
         ''      '' @ description @ [CHR 0x0A] @
         ''    </item>'')\<close>

definition firstCompare ::
  "(string \<Rightarrow> int option) \<Rightarrow> FirstFeedItem \<Rightarrow> FirstFeedItem \<Rightarrow> int option" where
  "firstCompare date_parse a b =
     (case (case first_publishedAt b of None \<Rightarrow> Some 0 | Some d \<Rightarrow> date_parse d) of
        None \<Rightarrow> None
      | Some tb \<Rightarrow>
          (case (case first_publishedAt a of None \<Rightarrow> Some 0 | Some d \<Rightarrow> date_parse d) of
             None \<Rightarrow> None
           | Some ta \<Rightarrow> Some (tb - ta)))"

definition firstBuildRssFeed ::
  "(string \<Rightarrow> int option) \<Rightarrow> (nat \<Rightarrow> int) \<Rightarrow> int \<Rightarrow> FirstFeedItem list \<Rightarrow> string" where
  \<open>firstBuildRssFeed date_parse item_clock build_clock items =
     (let feedItems = concat (map (\<lambda>(i, item). firstRenderItem date_parse (item_clock i) item)
                                (enumerate 0 (array_sort (firstCompare date_parse) items)))
      in ''<?xml version="1.0" encoding="UTF-8"?>'' @ [CHR 0x0A] @
         ''<rss version="2.0">'' @ [CHR 0x0A] @
         ''  <channel>'' @ [CHR 0x0A] @
         ''    <title>'' @ escapeXml SITE_TITLE @ ''</title>'' @ [CHR 0x0A] @
         ''    <link>'' @ escapeXml SITE_LINK @ ''</link>'' @ [CHR 0x0A] @
         ''    <description>'' @ escapeXml SITE_DESCRIPTION @ ''</description>'' @ [CHR 0x0A] @
         ''    <lastBuildDate>'' @ escapeXml (toUTCString (Some build_clock)) @
         ''</lastBuildDate>'' @ [CHR 0x0A] @
         ''    '' @ feedItems @ [CHR 0x0A] @
         ''  </channel>'' @ [CHR 0x0A] @
         ''</rss>'' @ [CHR 0x0A])\<close>

section \<open>The run\<close>

text \<open>
  Everything \<^verbatim>\<open>main\<close> reads from outside is in the environment: the configuration file,
  the token, the remote API, \<^verbatim>\<open>marked\<close>, \<^verbatim>\<open>Date.parse\<close>, the clock, and what creating
  the directory and writing the file do (\<open>Some message\<close> when one of them throws).
\<close>

record environment =
  CONFIG_FILE :: string
  OUTPUT_FILE :: string
  config :: config_file
  GITHUB_TOKEN :: "string option"
  api :: "request \<Rightarrow> fetch_outcome"
  marked :: "string \<Rightarrow> string"
  date_parse :: "string \<Rightarrow> int option"
  item_clock :: "nat \<Rightarrow> int"
  build_clock :: int
  writeFeed :: "string \<Rightarrow> string option"

datatype console_line = Log string | Warn string | Error fatal_error

record run =
  exitCode :: int
  written :: "string option"
  console :: "console_line list"

fun processRepositories ::
  "environment \<Rightarrow> NormalizedRepoConfig list \<Rightarrow> FeedItem list \<times> string list \<Rightarrow>
   FeedItem list \<times> string list" where
  \<comment> \<open>the \<^verbatim>\<open>for\<close> loop over the repositories, on \<^verbatim>\<open>results\<close> and \<^verbatim>\<open>errors\<close>\<close>
  "processRepositories env [] (results, errors) = (results, errors)"
| "processRepositories env (repo # repos) (results, errors) =
     (case fetchReleasesForRepo (marked env) (GITHUB_TOKEN env) (api env) repo of
        Inr releases \<Rightarrow> processRepositories env repos (results @ releases, errors)
      | Inl err \<Rightarrow>
          processRepositories env repos
            (results, errors @ [''- '' @ slug repo @ '': '' @ message err]))"

definition rejected :: "fatal_error \<Rightarrow> run" where
  \<comment> \<open>\<^verbatim>\<open>main().catch(...)\<close>\<close>
  "rejected err = \<lparr>exitCode = 1, written = None, console = [Error err]\<rparr>"

definition main :: "environment \<Rightarrow> run" where
  "main env =
     (case loadRepoList (CONFIG_FILE env) (config env) of
        Inl err \<Rightarrow> rejected err
      | Inr rawEntries \<Rightarrow>
          (case parseConfigEntries rawEntries of
             Inl err \<Rightarrow> rejected err
           | Inr repositories \<Rightarrow>
               (case processRepositories env repositories ([], []) of
                  (results, errors) \<Rightarrow>
                    (let warned = (if results = []
                                   then [Warn ''No major/minor releases found with current configuration.'']
                                   else []);
                         feed = buildRssFeed (date_parse env) (item_clock env) (build_clock env)
                                  results
                     in case writeFeed env feed of
                          Some m \<Rightarrow>
                            \<lparr>exitCode = 1, written = None,
                             console = warned @ [Error (WriteError m)]\<rparr>
                        | None \<Rightarrow>
                            \<lparr>exitCode = 0, written = Some feed,
                             console =
                               warned @ [Log (''RSS feed written to '' @ OUTPUT_FILE env)] @
                               (if errors \<noteq> []
                                then [Warn (''Some repositories could not be processed:'' @
                                            [CHR 0x0A] @ join [CHR 0x0A] errors)]
                                else [])\<rparr>))))"

text \<open>
  Reading CDATA sections as an XML parser does: a section opens with \<^verbatim>\<open><![CDATA[\<close> and
  is closed by the first \<^verbatim>\<open>]]>\<close> behind it. \<open>read_sections False s\<close> reads the sections
  that follow one another at the head of \<open>s\<close> and gives their character data, joined, and
  the rest of \<open>s\<close>; it gives \<open>None\<close> when a section is never closed.
\<close>

function read_sections :: "bool \<Rightarrow> string \<Rightarrow> (string \<times> string) option" where
  "read_sections inside s =
     (if inside
      then (if starts_with '']]>'' s then read_sections False (drop 3 s)
            else (case s of
                    [] \<Rightarrow> None
                  | c # cs \<Rightarrow>
                      (case read_sections True cs of
                         None \<Rightarrow> None
                       | Some (x, r) \<Rightarrow> Some (c # x, r))))
      else (if starts_with ''<![CDATA['' s then read_sections True (drop 9 s)
            else Some ([], s)))"
  by pat_completeness auto
termination
proof (relation "measure (\<lambda>(inside, s). length s)")
  show "wf (measure (\<lambda>(inside, s). length s))"
    by simp
next
  fix inside :: bool and s :: string
  assume "starts_with '']]>'' s"
  then have "s \<noteq> []"
    by (auto simp: starts_with_def)
  then show "((False, drop 3 s), inside, s) \<in> measure (\<lambda>(inside, s). length s)"
    by simp
next
  fix inside :: bool and s :: string and c :: char and cs :: string
  assume "s = c # cs"
  then show "((True, cs), inside, s) \<in> measure (\<lambda>(inside, s). length s)"
    by simp
next
  fix inside :: bool and s :: string
  assume "starts_with ''<![CDATA['' s"
  then have "s \<noteq> []"
    by (auto simp: starts_with_def)
  then show "((True, drop 9 s), inside, s) \<in> measure (\<lambda>(inside, s). length s)"
    by simp
qed

abbreviation (input) esc :: "string \<Rightarrow> string" where
  \<comment> \<open>the replacement \<^verbatim>\<open>wrapInCdata\<close> makes in its value\<close>
  "esc \<equiv> replace_all (lit '']]>'') '']]]]><![CDATA[>''"

definition has_timestamp :: "FeedItem \<Rightarrow> bool" where
  \<comment> \<open>\<^verbatim>\<open>publishedAt\<close> is a text and not the empty one: what \<^verbatim>\<open>isoDate ? ... : ...\<close> asks\<close>
  "has_timestamp item = (case publishedAt item of None \<Rightarrow> False | Some d \<Rightarrow> d \<noteq> [])"

definition sortTime :: "(string \<Rightarrow> int option) \<Rightarrow> FeedItem \<Rightarrow> int" where
  \<comment> \<open>the time value the comparator reads, where it is a number\<close>
  "sortTime parse item = (case getTime parse item of None \<Rightarrow> 0 | Some t \<Rightarrow> t)"

definition fetched :: "environment \<Rightarrow> NormalizedRepoConfig \<Rightarrow> target_error + FeedItem list" where
  \<comment> \<open>the call in the loop of \<^verbatim>\<open>main\<close>\<close>
  "fetched env repo = fetchReleasesForRepo (marked env) (GITHUB_TOKEN env) (api env) repo"

definition all_parse :: "(string \<Rightarrow> int option) \<Rightarrow> FeedItem list \<Rightarrow> bool" where
  \<comment> \<open>no item makes the comparator read \<^verbatim>\<open>NaN\<close>: every timestamp present parses\<close>
  "all_parse parse items = list_all (\<lambda>item. getTime parse item \<noteq> None) items"

definition itemsOf :: "environment \<Rightarrow> NormalizedRepoConfig \<Rightarrow> FeedItem list" where
  \<comment> \<open>what one pass of the loop adds to \<^verbatim>\<open>results\<close>\<close>
  "itemsOf env repo = (case fetched env repo of Inl err \<Rightarrow> [] | Inr items \<Rightarrow> items)"

definition warningsOf :: "environment \<Rightarrow> NormalizedRepoConfig \<Rightarrow> string list" where
  \<comment> \<open>what one pass of the loop adds to \<^verbatim>\<open>errors\<close>\<close>
  "warningsOf env repo =
     (case fetched env repo of
        Inl err \<Rightarrow> [''- '' @ slug repo @ '': '' @ message err]
      | Inr items \<Rightarrow> [])"

section \<open>Sample inputs\<close>

text \<open>
  Inputs for the worked instances: five releases that qualify, \<^verbatim>\<open>Date.parse\<close> at three
  date-time texts, a remote API that fails for the owners \<^verbatim>\<open>down\<close> (status 404) and
  \<^verbatim>\<open>odd\<close> (a body that is no list), and an environment around them.
\<close>

definition sample_release :: "string \<Rightarrow> string option \<Rightarrow> GitHubRelease" where
  "sample_release tag published =
     \<lparr>rel_id = 1, html_url = ''https://github.com/o/r/releases/tag/'' @ tag,
      tag_name = Some tag, rel_name = None, body = None, draft = False, prerelease = False,
      published_at = published, created_at = None\<rparr>"

definition five_releases :: "GitHubRelease list" where
  "five_releases =
     map (\<lambda>t. sample_release t None) [''v5.0.0'', ''v4.1.0'', ''v4.0.0'', ''v3.0'', ''2.0.0'']"

definition sample_date_parse :: "string \<Rightarrow> int option" where
  "sample_date_parse =
     map_of [(''2024-01-01T00:00:00Z'', 1704067200000),
             (''1970-01-01T00:00:00Z'', 0),
             (''1969-12-31T23:59:59Z'', - 1000)]"

definition sample_api :: "request \<Rightarrow> fetch_outcome" where
  "sample_api q =
     (if req_owner q = ''down'' then Response False 404 ''Not Found'' NotAnArray
      else if req_owner q = ''odd'' then Response True 200 ''OK'' NotAnArray
      else Response True 200 ''OK'' (ReleaseArray five_releases))"

definition sample_marked :: "string \<Rightarrow> string" where
  "sample_marked s = ''<p>'' @ s @ ''</p>''"

definition clock_at :: "int \<Rightarrow> nat \<Rightarrow> int" where
  \<comment> \<open>a clock that reads \<open>t\<close> in every call\<close>
  "clock_at t i = t"

definition written_ok :: "string \<Rightarrow> string option" where
  "written_ok content = None"

definition sample_env :: "config_entry list \<Rightarrow> environment" where
  "sample_env entries =
     \<lparr>CONFIG_FILE = ''repos.json'', OUTPUT_FILE = ''docs/feed.xml'',
      config = Parsed (RepositoriesArray entries),
      GITHUB_TOKEN = None,
      api = sample_api,
      marked = sample_marked,
      date_parse = sample_date_parse,
      item_clock = clock_at 86400000,
      build_clock = 86400000,
      writeFeed = written_ok\<rparr>"

definition terminator_release :: GitHubRelease where
  \<comment> \<open>a release whose notes hold \<^verbatim>\<open>]]>\<close>\<close>
  "terminator_release =
     \<lparr>rel_id = 7, html_url = ''https://github.com/a/x/releases/tag/v1.0.0'',
      tag_name = Some ''v1.0.0'', rel_name = None, body = Some ''a]]>b'', draft = False,
      prerelease = False, published_at = Some ''2024-01-01T00:00:00Z'', created_at = None\<rparr>"

definition undated_item :: FeedItem where
  "undated_item = toFeedItem sample_marked ''a/x'' (sample_release ''v1.0.0'' None)"

definition early_item :: FeedItem where
  "early_item =
     toFeedItem sample_marked ''a/x'' (sample_release ''v0.9.0'' (Some ''1969-12-31T23:59:59Z''))"

definition recent_item :: FeedItem where
  "recent_item =
     toFeedItem sample_marked ''b/y'' (sample_release ''v2.0.0'' (Some ''2024-01-01T00:00:00Z''))"

definition three_entries :: "config_entry list" where
  "three_entries =
     [EntryString ''a/x'',
      EntryObject \<lparr>cfg_slug = Some ''down/y'', cfg_maxReleases = Some 3,
                   cfg_includePatchReleases = None\<rparr>,
      EntryObject \<lparr>cfg_slug = Some ''b/z'', cfg_maxReleases = Some 1,
                   cfg_includePatchReleases = None\<rparr>]"

section \<open>Notions the properties are stated with\<close>

text \<open>
  A tag \<^verbatim>\<open>vMAJOR.MINOR\<close> or \<^verbatim>\<open>vMAJOR.MINOR.PATCH\<close> (the \<^verbatim>\<open>v\<close> optional) is written from
  its parts: each number is a text of one or more digits, the patch may be absent.
\<close>

definition digits1 :: "string \<Rightarrow> bool" where
  "digits1 ds = (ds \<noteq> [] \<and> list_all is_digit ds)"

definition patch_ok :: "string option \<Rightarrow> bool" where
  "patch_ok P = (case P of None \<Rightarrow> True | Some p \<Rightarrow> digits1 p)"

definition patch_text :: "string option \<Rightarrow> string" where
  "patch_text P = (case P of None \<Rightarrow> [] | Some p \<Rightarrow> CHR ''.'' # p)"

definition numeric_tag :: "bool \<Rightarrow> string \<Rightarrow> string \<Rightarrow> string option \<Rightarrow> string" where
  "numeric_tag v M N P = (if v then ''v'' else []) @ M @ ''.'' @ N @ patch_text P"

definition integers :: "string \<Rightarrow> string \<Rightarrow> string option \<Rightarrow> bool" where
  \<comment> \<open>each number passes \<^verbatim>\<open>Number.isInteger\<close>\<close>
  "integers M N P =
     (isInteger (Number M) \<and> isInteger (Number N) \<and>
      (case P of None \<Rightarrow> True | Some p \<Rightarrow> isInteger (Number p)))"

definition patch_value :: "string option \<Rightarrow> int" where
  "patch_value P = (case P of None \<Rightarrow> 0 | Some p \<Rightarrow> dec_value p)"

definition sign :: "char \<Rightarrow> bool" where
  "sign c = (c = CHR ''-'' \<or> c = CHR ''+'')"

definition is_suffix :: "string \<Rightarrow> bool" where
  \<comment> \<open>a sign and then any characters but line terminators: what \<^verbatim>\<open>[-+].*\<close> matches\<close>
  "is_suffix s = (case s of [] \<Rightarrow> False | c # r \<Rightarrow> sign c \<and> \<not> list_ex line_terminator r)"

definition extends_numeric :: "string option \<Rightarrow> string \<Rightarrow> bool" where
  \<comment> \<open>the text \<open>g\<close> behind the numbers would be read as more of them: a further digit, or a
      patch where there was none\<close>
  "extends_numeric P g =
     (case g of
        [] \<Rightarrow> False
      | c # r \<Rightarrow>
          is_digit c \<or>
          (P = None \<and> c = CHR ''.'' \<and> (case r of [] \<Rightarrow> False | d # _ \<Rightarrow> is_digit d)))"

section \<open>Properties of the classifier\<close>

lemma not_digit_punct [simp]:
  "\<not> is_digit CHR ''.''" "\<not> is_digit CHR ''v''" "\<not> is_digit CHR ''-''" "\<not> is_digit CHR ''+''"
  by (simp_all add: is_digit_def)

lemma takeWhile_digits:
  assumes "list_all is_digit ds" and "r = [] \<or> \<not> is_digit (hd r)"
  shows "takeWhile is_digit (ds @ r) = ds" and "dropWhile is_digit (ds @ r) = r"
proof -
  have r: "takeWhile is_digit r = []" "dropWhile is_digit r = r"
    using assms(2) by (cases r; simp)+
  from assms(1) have all: "\<forall>x\<in>set ds. is_digit x" by (simp add: list_all_iff)
  show "takeWhile is_digit (ds @ r) = ds"
    using all r by (simp add: takeWhile_append2)
  show "dropWhile is_digit (ds @ r) = r"
    using all r by (simp add: dropWhile_append2)
qed

lemma opt_v_numeric:
  assumes "digits1 M"
  shows "opt_v ((if v then ''v'' else []) @ M @ r) = M @ r"
proof (cases v)
  case True
  then show ?thesis by (simp add: opt_v_def)
next
  case False
  from assms obtain c cs where M: "M = c # cs" and "is_digit c"
    by (cases M) (auto simp: digits1_def)
  then have "c \<noteq> CHR ''v''" by auto
  with False M show ?thesis by (simp add: opt_v_def)
qed

lemma opt_patch_numeric:
  assumes "patch_ok P" and "\<not> extends_numeric P g"
  shows "opt_patch (patch_text P @ g) = (P, g)"
proof (cases P)
  case None
  with assms(2) show ?thesis
    by (cases g; simp add: opt_patch_def patch_text_def extends_numeric_def split: list.splits)
next
  case (Some p)
  with assms have p: "list_all is_digit p" "p \<noteq> []" and g: "g = [] \<or> \<not> is_digit (hd g)"
    by (auto simp: patch_ok_def digits1_def extends_numeric_def split: list.splits)
  from takeWhile_digits [OF p(1) g] p(2) Some show ?thesis
    by (simp add: opt_patch_def patch_text_def)
qed

lemma semver_match_numeric:
  assumes M: "digits1 M" and N: "digits1 N" and P: "patch_ok P"
    and g: "\<not> extends_numeric P g"
  shows "semver_match (numeric_tag v M N P @ g) =
           (case opt_suffix g of
              None \<Rightarrow> None
            | Some sf \<Rightarrow> Some \<lparr>major = M, minor = N, patch = P, suffix = sf\<rparr>)"
proof -
  let ?r3 = "patch_text P @ g"
  let ?r1 = "CHR ''.'' # N @ ?r3"
  have s0: "opt_v (numeric_tag v M N P @ g) = M @ ?r1"
    using opt_v_numeric [OF M, of v ?r1] by (simp add: numeric_tag_def)
  have m: "takeWhile is_digit (M @ ?r1) = M" "dropWhile is_digit (M @ ?r1) = ?r1"
    using takeWhile_digits [of M ?r1] M by (simp_all add: digits1_def)
  have r3: "?r3 = [] \<or> \<not> is_digit (hd ?r3)"
    using g by (cases P; cases g; simp add: patch_text_def extends_numeric_def)
  have n: "takeWhile is_digit (N @ ?r3) = N" "dropWhile is_digit (N @ ?r3) = ?r3"
    using takeWhile_digits [OF _ r3, of N] N by (simp_all add: digits1_def)
  have ne: "M \<noteq> []" "N \<noteq> []" using M N by (simp_all add: digits1_def)
  show ?thesis
    unfolding semver_match_def s0
    by (simp add: m n ne opt_patch_numeric [OF P g] Let_def split: option.split)
qed

text \<open>
  Conversely, every tag the pattern matches is written that way: the optional \<^verbatim>\<open>v\<close>, the
  numbers of the groups, and the suffix when there is one.
\<close>

lemma digits1_takeWhile: "takeWhile is_digit s \<noteq> [] \<Longrightarrow> digits1 (takeWhile is_digit s)"
  by (auto simp: digits1_def list_all_iff dest: set_takeWhileD)

lemma opt_v_shape: "\<exists>v. s = (if v then ''v'' else []) @ opt_v s"
proof (cases "s \<noteq> [] \<and> hd s = CHR ''v''")
  case True
  then have "s = (if True then ''v'' else []) @ opt_v s"
    by (cases s) (simp_all add: opt_v_def)
  then show ?thesis ..
next
  case False
  then have "s = (if False then ''v'' else []) @ opt_v s"
    by (cases s) (auto simp: opt_v_def)
  then show ?thesis ..
qed

lemma opt_patch_shape:
  assumes "opt_patch s = (p, r)"
  shows "s = patch_text p @ r \<and> patch_ok p"
proof (cases "s \<noteq> [] \<and> hd s = CHR ''.'' \<and> takeWhile is_digit (tl s) \<noteq> []")
  case True
  then obtain t where s: "s = CHR ''.'' # t" and t: "takeWhile is_digit t \<noteq> []"
    by (cases s) auto
  with assms have "p = Some (takeWhile is_digit t)" "r = dropWhile is_digit t"
    by (simp_all add: opt_patch_def)
  with s t show ?thesis
    by (simp add: patch_text_def patch_ok_def digits1_takeWhile)
next
  case False
  with assms have "p = None" "r = s"
    by (cases s; auto simp: opt_patch_def)+
  then show ?thesis by (simp add: patch_text_def patch_ok_def)
qed

lemma opt_suffix_shape:
  assumes "opt_suffix s = Some sf"
  shows "s = (case sf of None \<Rightarrow> [] | Some x \<Rightarrow> x) \<and> (case sf of None \<Rightarrow> True | Some x \<Rightarrow> is_suffix x)"
  using assms by (cases s) (auto simp: opt_suffix_def is_suffix_def sign_def split: if_splits)

lemma semver_match_shape:
  assumes "semver_match tag = Some g"
  shows "\<exists>v. tag = numeric_tag v (major g) (minor g) (patch g) @
                  (case suffix g of None \<Rightarrow> [] | Some s \<Rightarrow> s) \<and>
             digits1 (major g) \<and> digits1 (minor g) \<and> patch_ok (patch g) \<and>
             (case suffix g of None \<Rightarrow> True | Some s \<Rightarrow> is_suffix s)"
proof -
  let ?s0 = "opt_v tag"
  let ?s1 = "dropWhile is_digit ?s0"
  from assms have mj: "takeWhile is_digit ?s0 \<noteq> []"
    by (auto simp: semver_match_def Let_def split: if_splits)
  from assms mj obtain s2 where s1: "?s1 = CHR ''.'' # s2"
    by (cases ?s1) (auto simp: semver_match_def Let_def split: if_splits)
  from assms mj s1 have mi: "takeWhile is_digit s2 \<noteq> []"
    by (auto simp: semver_match_def Let_def split: if_splits)
  obtain p s4 where op: "opt_patch (dropWhile is_digit s2) = (p, s4)"
    by (cases "opt_patch (dropWhile is_digit s2)")
  from assms mj s1 mi op obtain sf where os: "opt_suffix s4 = Some sf"
    and g: "g = \<lparr>major = takeWhile is_digit ?s0, minor = takeWhile is_digit s2, patch = p, suffix = sf\<rparr>"
    by (auto simp: semver_match_def Let_def split: option.splits)
  obtain v where v: "tag = (if v then ''v'' else []) @ ?s0"
    using opt_v_shape by blast
  have "?s0 = takeWhile is_digit ?s0 @ ?s1" by simp
  also have "?s1 = CHR ''.'' # takeWhile is_digit s2 @ dropWhile is_digit s2"
    using s1 by simp
  also have "dropWhile is_digit s2 = patch_text p @ s4"
    using opt_patch_shape [OF op] by simp
  also have "s4 = (case sf of None \<Rightarrow> [] | Some x \<Rightarrow> x)"
    using opt_suffix_shape [OF os] by simp
  finally have "?s0 = takeWhile is_digit ?s0 @ CHR ''.'' # takeWhile is_digit s2 @ patch_text p @
                  (case sf of None \<Rightarrow> [] | Some x \<Rightarrow> x)" .
  with v have "tag = numeric_tag v (major g) (minor g) (patch g) @
                  (case suffix g of None \<Rightarrow> [] | Some s \<Rightarrow> s)"
    by (simp add: numeric_tag_def g)
  moreover have "digits1 (major g)" "digits1 (minor g)"
    using mj mi by (simp_all add: g digits1_takeWhile)
  moreover have "patch_ok (patch g)"
    using opt_patch_shape [OF op] by (simp add: g)
  moreover have "case suffix g of None \<Rightarrow> True | Some s \<Rightarrow> is_suffix s"
    using opt_suffix_shape [OF os] by (simp add: g)
  ultimately show ?thesis by blast
qed

lemma patchNumber_of_zero:
  assumes "patch_ok P"
  shows "patchNumber_of P = Num 0 \<longleftrightarrow>
           (case P of None \<Rightarrow> True | Some p \<Rightarrow> isInteger (Number p) \<and> dec_value p = 0)"
  using assms
  by (cases P) (auto simp: patchNumber_of_def patch_ok_def digits1_def Number_def)

lemma suffix_not_extending: "is_suffix s \<Longrightarrow> \<not> extends_numeric P s"
  by (cases s) (auto simp: is_suffix_def extends_numeric_def sign_def)

lemma opt_suffix_None: "opt_suffix g = None \<longleftrightarrow> g \<noteq> [] \<and> \<not> is_suffix g"
  by (cases g) (auto simp: opt_suffix_def is_suffix_def sign_def)

lemma isMajorOrMinorRelease_numeric:
  assumes M: "digits1 M" and N: "digits1 N" and P: "patch_ok P"
    and g: "\<not> extends_numeric P g"
  shows "isMajorOrMinorRelease (Some (numeric_tag v M N P @ g)) =
           ((g = [] \<or> is_suffix g) \<and> isInteger (Number M) \<and> isInteger (Number N) \<and>
            patchNumber_of P = Num 0)"
proof -
  have ne: "numeric_tag v M N P \<noteq> []"
    using M by (simp add: numeric_tag_def digits1_def)
  show ?thesis
  proof (cases "opt_suffix g")
    case None
    then show ?thesis
      using opt_suffix_None [of g]
      by (simp add: isMajorOrMinorRelease_def semver_match_numeric [OF M N P g] ne)
  next
    case (Some sf)
    then have "g = [] \<or> is_suffix g"
      using opt_suffix_None [of g] by auto
    with Some show ?thesis
      by (cases "patchNumber_of P")
         (simp_all add: isMajorOrMinorRelease_def semver_match_numeric [OF M N P g] Let_def ne)
  qed
qed

lemma isMajorOrMinorRelease_plain:
  assumes "digits1 M" and "digits1 N" and "patch_ok P" and "integers M N P"
  shows "isMajorOrMinorRelease (Some (numeric_tag v M N P)) = (patch_value P = 0)"
proof -
  have g: "\<not> extends_numeric P []" by (simp add: extends_numeric_def)
  have "isMajorOrMinorRelease (Some (numeric_tag v M N P @ [])) = (patch_value P = 0)"
    unfolding isMajorOrMinorRelease_numeric [OF assms(1-3) g]
    using assms(4) patchNumber_of_zero [OF assms(3)]
    by (cases P) (auto simp: integers_def patch_value_def)
  then show ?thesis by simp
qed

text \<open>
  C9. A tag \<^verbatim>\<open>MAJOR.MINOR\<close> with no patch, with or without the leading \<^verbatim>\<open>v\<close>, whose two
  numbers pass \<^verbatim>\<open>Number.isInteger\<close>, matches the pattern with the patch group absent;
  the patch number then defaults to \<open>0\<close>, and the classifier includes the release.
\<close>

theorem major_minor_tag_included:
  assumes "digits1 M" and "digits1 N" and "isInteger (Number M)" and "isInteger (Number N)"
  shows "semver_match (numeric_tag v M N None) =
           Some \<lparr>major = M, minor = N, patch = None, suffix = None\<rparr> \<and>
         patchNumber_of None = Num 0 \<and>
         isMajorOrMinorRelease (Some (numeric_tag v M N None))"
proof -
  have g: "\<not> extends_numeric None []" by (simp add: extends_numeric_def)
  have p: "patch_ok None" by (simp add: patch_ok_def)
  have "semver_match (numeric_tag v M N None @ []) =
          Some \<lparr>major = M, minor = N, patch = None, suffix = None\<rparr>"
    unfolding semver_match_numeric [OF assms(1,2) p g] by (simp add: opt_suffix_def)
  moreover have "patchNumber_of None = Num 0" by (simp add: patchNumber_of_def)
  moreover have "isMajorOrMinorRelease (Some (numeric_tag v M N None))"
    using isMajorOrMinorRelease_plain [OF assms(1,2) p, of v] assms(3,4)
    by (simp add: integers_def patch_value_def)
  ultimately show ?thesis by simp
qed

theorem major_minor_tag_included_witness:
  "numeric_tag False ''1'' ''2'' None = ''1.2'' \<and>
   numeric_tag True ''1'' ''2'' None = ''v1.2'' \<and>
   semver_match ''1.2'' = Some \<lparr>major = ''1'', minor = ''2'', patch = None, suffix = None\<rparr> \<and>
   isMajorOrMinorRelease (Some ''1.2'') \<and>
   isMajorOrMinorRelease (Some ''v1.2'')"
proof -
  have d: "digits1 ''1''" "digits1 ''2''"
    by (simp_all add: digits1_def is_digit_def)
  have i: "isInteger (Number ''1'')" "isInteger (Number ''2'')"
    by (simp_all add: Number_def dec_value_def digit_val_def)
  have t: "numeric_tag False ''1'' ''2'' None = ''1.2''" "numeric_tag True ''1'' ''2'' None = ''v1.2''"
    by (simp_all add: numeric_tag_def patch_text_def)
  from major_minor_tag_included [OF d i, of False] major_minor_tag_included [OF d i, of True] t
  show ?thesis by simp
qed

text \<open>
  C1, as the code has it. The classifier reads no option: for a tag \<^verbatim>\<open>vMAJOR.MINOR\<close> or
  \<^verbatim>\<open>vMAJOR.MINOR.PATCH\<close> with no suffix, whose numbers pass \<^verbatim>\<open>Number.isInteger\<close>, it
  includes the release exactly when the patch is \<open>0\<close> or absent. An
  \<^verbatim>\<open>includePatchReleases\<close> property of a configuration entry changes nothing:
  \<^verbatim>\<open>parseConfigEntry\<close> gives the same target with any value of it.
\<close>

theorem patch_rule_without_option:
  assumes "digits1 M" and "digits1 N" and "patch_ok P" and "integers M N P"
  shows "isMajorOrMinorRelease (Some (numeric_tag v M N P)) = (patch_value P = 0) \<and>
         (parseConfigEntry (EntryObject entry) = Inr cfg \<longrightarrow>
            parseConfigEntry (EntryObject (entry\<lparr>cfg_includePatchReleases := b\<rparr>)) = Inr cfg)"
  using isMajorOrMinorRelease_plain [OF assms]
  by (simp split: option.split)

theorem patch_rule_without_option_witness:
  "digits1 ''1'' \<and> digits1 ''2'' \<and> patch_ok (Some ''3'') \<and> integers ''1'' ''2'' (Some ''3'') \<and>
   numeric_tag True ''1'' ''2'' (Some ''3'') = ''v1.2.3'' \<and>
   patch_value (Some ''3'') = 3 \<and>
   \<not> isMajorOrMinorRelease (Some ''v1.2.3'') \<and>
   parseConfigEntry
     (EntryObject \<lparr>cfg_slug = Some ''o/r'', cfg_maxReleases = None,
                   cfg_includePatchReleases = None\<rparr>) =
     Inr \<lparr>slug = ''o/r'', maxReleases = 10\<rparr> \<and>
   parseConfigEntry
     (EntryObject \<lparr>cfg_slug = Some ''o/r'', cfg_maxReleases = None,
                   cfg_includePatchReleases = Some True\<rparr>) =
     Inr \<lparr>slug = ''o/r'', maxReleases = 10\<rparr>"
proof -
  have h: "digits1 ''1''" "digits1 ''2''" "patch_ok (Some ''3'')" "integers ''1'' ''2'' (Some ''3'')"
    by (simp_all add: digits1_def patch_ok_def integers_def is_digit_def Number_def
        dec_value_def digit_val_def)
  have t: "numeric_tag True ''1'' ''2'' (Some ''3'') = ''v1.2.3''" "patch_value (Some ''3'') = 3"
    by (simp_all add: numeric_tag_def patch_text_def patch_value_def dec_value_def digit_val_def)
  have e: "parseConfigEntry
             (EntryObject \<lparr>cfg_slug = Some ''o/r'', cfg_maxReleases = None,
                           cfg_includePatchReleases = None\<rparr>) =
           Inr \<lparr>slug = ''o/r'', maxReleases = 10\<rparr>"
    by (simp add: DEFAULT_MAX_RELEASES_PER_REPO_def)
  from patch_rule_without_option [OF h, of True
      "\<lparr>cfg_slug = Some ''o/r'', cfg_maxReleases = None, cfg_includePatchReleases = None\<rparr>"
      "\<lparr>slug = ''o/r'', maxReleases = 10\<rparr>" "Some True"] h t e
  show ?thesis by simp
qed

text \<open>
  C1 as stated fails: a target configured with \<^verbatim>\<open>includePatchReleases: true\<close> is parsed
  to the same target as without it, and its release \<^verbatim>\<open>v1.2.3\<close> is still excluded.
\<close>

theorem includePatchReleases_counterexample:
  "parseConfigEntry
     (EntryObject \<lparr>cfg_slug = Some ''o/r'', cfg_maxReleases = None,
                   cfg_includePatchReleases = Some True\<rparr>) =
     Inr \<lparr>slug = ''o/r'', maxReleases = 10\<rparr> \<and>
   \<not> isMajorOrMinorRelease (Some ''v1.2.3'') \<and>
   \<not> qualifies \<lparr>rel_id = 1, html_url = ''https://github.com/o/r/releases/tag/v1.2.3'',
                 tag_name = Some ''v1.2.3'', rel_name = None, body = None, draft = False,
                 prerelease = False, published_at = None, created_at = None\<rparr>"
  by code_simp

text \<open>
  C2, as the code has it. With the numbers of the tag fixed: a suffix that the pattern
  reads (a sign, then no line terminator) leaves the classification what it is without the
  suffix; other text behind the numbers, not begun by a sign and not read as more of the
  numbers, excludes the release; and so does text begun by a sign that holds a line
  terminator, which \<^verbatim>\<open>.*\<close> does not cross while \<^verbatim>\<open>$\<close> wants the end of the tag.
\<close>

theorem suffix_and_trailing_garbage:
  assumes "digits1 M" and "digits1 N" and "patch_ok P"
  shows "(is_suffix s \<longrightarrow>
            isMajorOrMinorRelease (Some (numeric_tag v M N P @ s)) =
            isMajorOrMinorRelease (Some (numeric_tag v M N P))) \<and>
         (g \<noteq> [] \<and> \<not> sign (hd g) \<and> \<not> extends_numeric P g \<longrightarrow>
            \<not> isMajorOrMinorRelease (Some (numeric_tag v M N P @ g))) \<and>
         (sign c \<and> list_ex line_terminator r \<longrightarrow>
            \<not> isMajorOrMinorRelease (Some (numeric_tag v M N P @ c # r)))"
proof (intro conjI impI)
  assume s: "is_suffix s"
  have e: "\<not> extends_numeric P []" by (simp add: extends_numeric_def)
  have "isMajorOrMinorRelease (Some (numeric_tag v M N P @ s)) =
        isMajorOrMinorRelease (Some (numeric_tag v M N P @ []))"
    unfolding isMajorOrMinorRelease_numeric [OF assms suffix_not_extending [OF s]]
      isMajorOrMinorRelease_numeric [OF assms e]
    using s by simp
  then show "isMajorOrMinorRelease (Some (numeric_tag v M N P @ s)) =
             isMajorOrMinorRelease (Some (numeric_tag v M N P))" by simp
next
  assume g: "g \<noteq> [] \<and> \<not> sign (hd g) \<and> \<not> extends_numeric P g"
  then have "\<not> is_suffix g"
    by (cases g) (auto simp: is_suffix_def)
  with g show "\<not> isMajorOrMinorRelease (Some (numeric_tag v M N P @ g))"
    by (simp add: isMajorOrMinorRelease_numeric [OF assms])
next
  assume c: "sign c \<and> list_ex line_terminator r"
  then have e: "\<not> extends_numeric P (c # r)"
    by (auto simp: extends_numeric_def sign_def)
  from c have "\<not> is_suffix (c # r)"
    by (simp add: is_suffix_def)
  then show "\<not> isMajorOrMinorRelease (Some (numeric_tag v M N P @ c # r))"
    by (simp add: isMajorOrMinorRelease_numeric [OF assms e])
qed

theorem suffix_and_trailing_garbage_witness:
  "digits1 ''1'' \<and> digits1 ''2'' \<and> patch_ok (Some ''0'') \<and>
   numeric_tag False ''1'' ''2'' (Some ''0'') = ''1.2.0'' \<and>
   is_suffix ''-beta.1'' \<and>
   isMajorOrMinorRelease (Some ''1.2.0-beta.1'') = isMajorOrMinorRelease (Some ''1.2.0'') \<and>
   ''x'' \<noteq> [] \<and> \<not> sign (hd ''x'') \<and> \<not> extends_numeric (Some ''0'') ''x'' \<and>
   \<not> isMajorOrMinorRelease (Some ''1.2.0x'') \<and>
   sign CHR ''-'' \<and> list_ex line_terminator (''rc'' @ [CHR 0x0A] @ ''1'') \<and>
   \<not> isMajorOrMinorRelease (Some (''1.2.0-rc'' @ [CHR 0x0A] @ ''1''))"
proof -
  have h: "digits1 ''1''" "digits1 ''2''" "patch_ok (Some ''0'')"
    by (simp_all add: digits1_def patch_ok_def is_digit_def)
  have t: "numeric_tag False ''1'' ''2'' (Some ''0'') = ''1.2.0''"
    by (simp add: numeric_tag_def patch_text_def)
  have a: "is_suffix ''-beta.1''"
    by (simp add: is_suffix_def sign_def line_terminator_def)
  have b: "''x'' \<noteq> [] \<and> \<not> sign (hd ''x'') \<and> \<not> extends_numeric (Some ''0'') ''x''"
    by (simp add: sign_def extends_numeric_def is_digit_def)
  have c: "sign CHR ''-'' \<and> list_ex line_terminator (''rc'' @ [CHR 0x0A] @ ''1'')"
    by (simp add: sign_def line_terminator_def)
  from suffix_and_trailing_garbage [OF h, of "''-beta.1''" False "''x''" "CHR ''-''"
      "''rc'' @ [CHR 0x0A] @ ''1''"] h t a b c
  show ?thesis by (simp add: line_terminator_def)
qed

text \<open>
  C2 as stated fails on a suffix that holds a line terminator: \<^verbatim>\<open>1.2.0\<close> is included,
  and \<^verbatim>\<open>1.2.0-rc\<close>, a line feed, \<^verbatim>\<open>1\<close> has the same numbers and a suffix begun by
  \<^verbatim>\<open>-\<close>, yet it is excluded.
\<close>

theorem suffix_line_terminator_counterexample:
  "isMajorOrMinorRelease (Some ''1.2.0'') \<and>
   \<not> isMajorOrMinorRelease (Some (''1.2.0'' @ ''-rc'' @ [CHR 0x0A] @ ''1''))"
  by code_simp

text \<open>
  C3, as the code has it. A suffix does not disqualify: a tag with a suffix, whose numbers
  pass \<^verbatim>\<open>Number.isInteger\<close>, is included exactly when its patch is \<open>0\<close> or absent.
\<close>

theorem suffix_keeps_patch_rule:
  assumes "digits1 M" and "digits1 N" and "patch_ok P" and "integers M N P" and "is_suffix s"
  shows "isMajorOrMinorRelease (Some (numeric_tag v M N P @ s)) = (patch_value P = 0)"
  unfolding isMajorOrMinorRelease_numeric [OF assms(1-3) suffix_not_extending [OF assms(5)]]
  using assms(4,5) patchNumber_of_zero [OF assms(3)]
  by (cases P) (auto simp: integers_def patch_value_def)

theorem suffix_keeps_patch_rule_witness:
  "digits1 ''1'' \<and> digits1 ''2'' \<and> patch_ok (Some ''0'') \<and> integers ''1'' ''2'' (Some ''0'') \<and>
   is_suffix ''-rc.1'' \<and>
   numeric_tag True ''1'' ''2'' (Some ''0'') @ ''-rc.1'' = ''v1.2.0-rc.1'' \<and>
   patch_value (Some ''0'') = 0 \<and>
   isMajorOrMinorRelease (Some ''v1.2.0-rc.1'')"
proof -
  have h: "digits1 ''1''" "digits1 ''2''" "patch_ok (Some ''0'')" "integers ''1'' ''2'' (Some ''0'')"
    "is_suffix ''-rc.1''"
    by (simp_all add: digits1_def patch_ok_def integers_def is_digit_def Number_def
        dec_value_def digit_val_def is_suffix_def sign_def line_terminator_def)
  have t: "numeric_tag True ''1'' ''2'' (Some ''0'') @ ''-rc.1'' = ''v1.2.0-rc.1''"
    "patch_value (Some ''0'') = 0"
    by (simp_all add: numeric_tag_def patch_text_def patch_value_def dec_value_def digit_val_def)
  from suffix_keeps_patch_rule [OF h, of True] h t
  show ?thesis by simp
qed

text \<open>
  C3 as stated fails: \<^verbatim>\<open>v1.2.0-rc.1\<close> has a suffix and is included.
\<close>

theorem suffix_disqualifies_counterexample:
  "isMajorOrMinorRelease (Some ''v1.2.0-rc.1'')"
  by code_simp

section \<open>Properties of fetching\<close>

lemma classified_tag_present:
  "isMajorOrMinorRelease t \<Longrightarrow> \<exists>s. t = Some s \<and> s \<noteq> []"
  by (cases t) (auto simp: isMajorOrMinorRelease_def split: if_splits)

lemma set_slice0: "set (slice0 n xs) \<subseteq> set xs"
  by (auto simp: slice0_def dest: in_set_takeD)

lemma fetch_Inr:
  assumes "fetchReleasesForRepo md token remote cfg = Inr items"
  shows "\<exists>status statusText releases.
           remote (releasesRequest token cfg) =
             Response True status statusText (ReleaseArray releases) \<and>
           items = feedItemsOf md cfg releases"
  using assms
  by (auto simp: fetchReleasesForRepo_def split: if_splits fetch_outcome.splits json_body.splits)

lemma fetch_ok:
  assumes "slugOwner (slug cfg) \<noteq> []" and "slugRepo (slug cfg) \<noteq> []"
    and "remote (releasesRequest token cfg) =
           Response True status statusText (ReleaseArray releases)"
  shows "fetchReleasesForRepo md token remote cfg = Inr (feedItemsOf md cfg releases)"
  using assms by (simp add: fetchReleasesForRepo_def)

lemma feedItemsOf_take:
  assumes "0 \<le> maxReleases cfg"
  shows "feedItemsOf md cfg releases =
           map (toFeedItem md (slug cfg))
             (take (nat (maxReleases cfg)) (filter qualifies releases))"
  using assms by (simp add: feedItemsOf_def slice0_def)

lemma repoSlug_feedItemsOf:
  "filter (\<lambda>i. repoSlug i = s) (feedItemsOf md cfg releases) =
     (if slug cfg = s then feedItemsOf md cfg releases else [])"
  by (auto simp: feedItemsOf_def filter_map comp_def toFeedItem_def)

lemma length_insert_by: "length (insert_by cmp x ys) = Suc (length ys)"
  by (induction ys) auto

lemma length_array_sort: "length (array_sort cmp xs) = length xs"
  by (induction xs) (auto simp: array_sort_def length_insert_by)

text \<open>
  C10. Every item that \<^verbatim>\<open>fetchReleasesForRepo\<close> returns comes from a release of the
  response that passed the classifier; that release has a tag, the tag is not empty, and
  the item's \<open>tagName\<close> is that tag: the fallback \<^verbatim>\<open>'unknown'\<close> is not taken.
\<close>

theorem tagName_is_the_release_tag:
  assumes "fetchReleasesForRepo md token remote cfg = Inr items" and "item \<in> set items"
  shows "\<exists>status statusText releases release.
           remote (releasesRequest token cfg) =
             Response True status statusText (ReleaseArray releases) \<and>
           release \<in> set releases \<and>
           item = toFeedItem md (slug cfg) release \<and>
           isMajorOrMinorRelease (tag_name release) \<and>
           tag_name release = Some (tagName item) \<and>
           tagName item \<noteq> []"
proof -
  from fetch_Inr [OF assms(1)] obtain status statusText releases where
    a: "remote (releasesRequest token cfg) =
          Response True status statusText (ReleaseArray releases)"
    and i: "items = feedItemsOf md cfg releases"
    by blast
  from assms(2) i obtain release where
    r: "release \<in> set (slice0 (maxReleases cfg) (filter qualifies releases))"
    and n: "item = toFeedItem md (slug cfg) release"
    by (auto simp: feedItemsOf_def)
  from r set_slice0 have m: "release \<in> set releases" and q: "qualifies release"
    by fastforce+
  from q have c: "isMajorOrMinorRelease (tag_name release)"
    by (simp add: qualifies_def)
  from classified_tag_present [OF c] obtain s where s: "tag_name release = Some s" "s \<noteq> []"
    by blast
  with n have "tagName item = s" by (simp add: toFeedItem_def)
  with a m n c s show ?thesis by blast
qed

lemma sample_fetch:
  "fetchReleasesForRepo sample_marked None sample_api \<lparr>slug = ''a/x'', maxReleases = 2\<rparr> =
     Inr [toFeedItem sample_marked ''a/x'' (sample_release ''v5.0.0'' None),
          toFeedItem sample_marked ''a/x'' (sample_release ''v4.1.0'' None)]"
  by code_simp

theorem tagName_is_the_release_tag_witness:
  "fetchReleasesForRepo sample_marked None sample_api \<lparr>slug = ''a/x'', maxReleases = 2\<rparr> =
     Inr [toFeedItem sample_marked ''a/x'' (sample_release ''v5.0.0'' None),
          toFeedItem sample_marked ''a/x'' (sample_release ''v4.1.0'' None)] \<and>
   tagName (toFeedItem sample_marked ''a/x'' (sample_release ''v5.0.0'' None)) = ''v5.0.0'' \<and>
   (\<exists>release :: GitHubRelease. tag_name release =
      Some (tagName (toFeedItem sample_marked ''a/x'' (sample_release ''v5.0.0'' None))))"
proof -
  have m: "toFeedItem sample_marked ''a/x'' (sample_release ''v5.0.0'' None) \<in>
           set [toFeedItem sample_marked ''a/x'' (sample_release ''v5.0.0'' None),
                toFeedItem sample_marked ''a/x'' (sample_release ''v4.1.0'' None)]"
    by simp
  have t: "tagName (toFeedItem sample_marked ''a/x'' (sample_release ''v5.0.0'' None)) = ''v5.0.0''"
    by (simp add: toFeedItem_def sample_release_def)
  from tagName_is_the_release_tag [OF sample_fetch m] sample_fetch t
  show ?thesis by blast
qed

text \<open>
  C5. Two targets with \<^verbatim>\<open>maxReleases = 2\<close> whose fetches each return five releases that
  all qualify: the loop collects the first two of each response, in the order of the
  response, four items in all, which is also the number of items the feed is built from;
  two of them carry the slug of each target. In general, for a cap that is not negative,
  the items of a target are the first \<open>maxReleases\<close> qualifying releases of its response,
  cut before the lists are merged.
\<close>

theorem per_repository_cap:
  assumes "maxReleases c1 = 2" and "maxReleases c2 = 2"
    and "slugOwner (slug c1) \<noteq> []" and "slugRepo (slug c1) \<noteq> []"
    and "slugOwner (slug c2) \<noteq> []" and "slugRepo (slug c2) \<noteq> []"
    and "api env (releasesRequest (GITHUB_TOKEN env) c1) = Response True st1 tx1 (ReleaseArray rs1)"
    and "api env (releasesRequest (GITHUB_TOKEN env) c2) = Response True st2 tx2 (ReleaseArray rs2)"
    and "length rs1 = 5" and "list_all qualifies rs1"
    and "length rs2 = 5" and "list_all qualifies rs2"
    and "slug c1 \<noteq> slug c2"
  shows "(\<exists>results.
            processRepositories env [c1, c2] ([], []) = (results, []) \<and>
            results = map (toFeedItem (marked env) (slug c1)) (take 2 rs1) @
                      map (toFeedItem (marked env) (slug c2)) (take 2 rs2) \<and>
            length results = 4 \<and>
            length (sortItems (date_parse env) results) = 4 \<and>
            length (filter (\<lambda>i. repoSlug i = slug c1) results) = 2 \<and>
            length (filter (\<lambda>i. repoSlug i = slug c2) results) = 2) \<and>
         (0 \<le> maxReleases cfg \<longrightarrow>
            feedItemsOf md cfg releases =
              map (toFeedItem md (slug cfg))
                (take (nat (maxReleases cfg)) (filter qualifies releases)) \<and>
            length (feedItemsOf md cfg releases) \<le> nat (maxReleases cfg))"
proof
  let ?f1 = "feedItemsOf (marked env) c1 rs1" and ?f2 = "feedItemsOf (marked env) c2 rs2"
  have q: "filter qualifies rs1 = rs1" "filter qualifies rs2 = rs2"
    using assms(10,12) by (simp_all add: list_all_iff)
  have f: "?f1 = map (toFeedItem (marked env) (slug c1)) (take 2 rs1)"
    "?f2 = map (toFeedItem (marked env) (slug c2)) (take 2 rs2)"
    using assms(1,2) q by (simp_all add: feedItemsOf_take)
  have l: "length ?f1 = 2" "length ?f2 = 2"
    using assms(9,11) by (simp_all add: f)
  have p: "processRepositories env [c1, c2] ([], []) = (?f1 @ ?f2, [])"
    using fetch_ok [of c1 "api env" "GITHUB_TOKEN env" st1 tx1 rs1 "marked env", OF assms(3,4,7)]
      fetch_ok [of c2 "api env" "GITHUB_TOKEN env" st2 tx2 rs2 "marked env", OF assms(5,6,8)]
    by simp
  have s1: "filter (\<lambda>i. repoSlug i = slug c1) (?f1 @ ?f2) = ?f1"
    and s2: "filter (\<lambda>i. repoSlug i = slug c2) (?f1 @ ?f2) = ?f2"
    using assms(13) by (simp_all add: repoSlug_feedItemsOf)
  have "length (?f1 @ ?f2) = 4" using l by simp
  moreover have "length (sortItems (date_parse env) (?f1 @ ?f2)) = 4"
    using l by (simp add: sortItems_def length_array_sort)
  moreover have "length (filter (\<lambda>i. repoSlug i = slug c1) (?f1 @ ?f2)) = 2"
    "length (filter (\<lambda>i. repoSlug i = slug c2) (?f1 @ ?f2)) = 2"
    using l by (simp_all only: s1 s2)
  ultimately show "\<exists>results.
            processRepositories env [c1, c2] ([], []) = (results, []) \<and>
            results = map (toFeedItem (marked env) (slug c1)) (take 2 rs1) @
                      map (toFeedItem (marked env) (slug c2)) (take 2 rs2) \<and>
            length results = 4 \<and>
            length (sortItems (date_parse env) results) = 4 \<and>
            length (filter (\<lambda>i. repoSlug i = slug c1) results) = 2 \<and>
            length (filter (\<lambda>i. repoSlug i = slug c2) results) = 2"
    using p f by simp
next
  show "0 \<le> maxReleases cfg \<longrightarrow>
          feedItemsOf md cfg releases =
            map (toFeedItem md (slug cfg))
              (take (nat (maxReleases cfg)) (filter qualifies releases)) \<and>
          length (feedItemsOf md cfg releases) \<le> nat (maxReleases cfg)"
    by (simp add: feedItemsOf_take)
qed

theorem per_repository_cap_witness:
  "maxReleases \<lparr>slug = ''a/x'', maxReleases = 2\<rparr> = 2 \<and>
   slugOwner ''a/x'' = ''a'' \<and> slugRepo ''a/x'' = ''x'' \<and>
   slugOwner ''b/y'' = ''b'' \<and> slugRepo ''b/y'' = ''y'' \<and>
   api (sample_env []) (releasesRequest None \<lparr>slug = ''a/x'', maxReleases = 2\<rparr>) =
     Response True 200 ''OK'' (ReleaseArray five_releases) \<and>
   api (sample_env []) (releasesRequest None \<lparr>slug = ''b/y'', maxReleases = 2\<rparr>) =
     Response True 200 ''OK'' (ReleaseArray five_releases) \<and>
   length five_releases = 5 \<and> list_all qualifies five_releases \<and>
   length (feedItemsOf sample_marked \<lparr>slug = ''a/x'', maxReleases = 2\<rparr> five_releases) \<le> 2 \<and>
   length (fst (processRepositories (sample_env [])
     [\<lparr>slug = ''a/x'', maxReleases = 2\<rparr>, \<lparr>slug = ''b/y'', maxReleases = 2\<rparr>] ([], []))) = 4 \<and>
   map tagName (fst (processRepositories (sample_env [])
     [\<lparr>slug = ''a/x'', maxReleases = 2\<rparr>, \<lparr>slug = ''b/y'', maxReleases = 2\<rparr>] ([], []))) =
     [''v5.0.0'', ''v4.1.0'', ''v5.0.0'', ''v4.1.0'']"
proof -
  let ?c1 = "\<lparr>slug = ''a/x'', maxReleases = 2\<rparr>" and ?c2 = "\<lparr>slug = ''b/y'', maxReleases = 2\<rparr>"
  have m: "maxReleases ?c1 = 2" "maxReleases ?c2 = 2" by simp_all
  have s: "slugOwner ''a/x'' = ''a''" "slugRepo ''a/x'' = ''x''"
    "slugOwner ''b/y'' = ''b''" "slugRepo ''b/y'' = ''y''"
    by (simp_all add: slugOwner_def slugRepo_def)
  have s': "slugOwner (slug ?c1) \<noteq> []" "slugRepo (slug ?c1) \<noteq> []"
    "slugOwner (slug ?c2) \<noteq> []" "slugRepo (slug ?c2) \<noteq> []"
    by (simp_all add: s)
  have a: "api (sample_env []) (releasesRequest (GITHUB_TOKEN (sample_env [])) ?c1) =
             Response True 200 ''OK'' (ReleaseArray five_releases)"
    "api (sample_env []) (releasesRequest (GITHUB_TOKEN (sample_env [])) ?c2) =
             Response True 200 ''OK'' (ReleaseArray five_releases)"
    by (simp_all add: sample_env_def sample_api_def releasesRequest_def s)
  have g: "GITHUB_TOKEN (sample_env []) = None" by (simp add: sample_env_def)
  have l: "length five_releases = 5" by (simp add: five_releases_def)
  have q: "list_all qualifies five_releases" by code_simp
  have d: "slug ?c1 \<noteq> slug ?c2" by simp
  have t: "map tagName (map (toFeedItem (marked (sample_env [])) (slug ?c1)) (take 2 five_releases) @
             map (toFeedItem (marked (sample_env [])) (slug ?c2)) (take 2 five_releases)) =
           [''v5.0.0'', ''v4.1.0'', ''v5.0.0'', ''v4.1.0'']"
    by (simp add: five_releases_def toFeedItem_def sample_release_def)
  have "(0::int) \<le> maxReleases ?c1" by simp
  with per_repository_cap [OF m s' a l q l q d, of ?c1 sample_marked five_releases]
  have k: "length (feedItemsOf sample_marked ?c1 five_releases) \<le> 2"
    by simp
  from per_repository_cap [OF m s' a l q l q d] obtain results where
    r: "processRepositories (sample_env []) [?c1, ?c2] ([], []) = (results, [])"
       "results = map (toFeedItem (marked (sample_env [])) (slug ?c1)) (take 2 five_releases) @
                  map (toFeedItem (marked (sample_env [])) (slug ?c2)) (take 2 five_releases)"
       "length results = 4"
    by blast
  from r(1,3) have "length (fst (processRepositories (sample_env []) [?c1, ?c2] ([], []))) = 4"
    by simp
  moreover from r(1,2) t have
    "map tagName (fst (processRepositories (sample_env []) [?c1, ?c2] ([], []))) =
       [''v5.0.0'', ''v4.1.0'', ''v5.0.0'', ''v4.1.0'']"
    by simp
  ultimately show ?thesis
    using m s a l q k unfolding g by simp
qed

section \<open>Properties of the CDATA wrapping\<close>

lemma sublist_concat: "x \<in> set xss \<Longrightarrow> sublist x (concat xss)"
proof -
  assume "x \<in> set xss"
  then obtain a b where "xss = a @ x # b" by (auto dest: split_list)
  then have "concat xss = concat a @ x @ concat b" by simp
  then show ?thesis by (simp only: sublist_appendI)
qed

lemma sublist_join: "x \<in> set xs \<Longrightarrow> sublist x (join sep xs)"
proof (induction xs)
  case Nil
  then show ?case by simp
next
  case (Cons y ys)
  show ?case
  proof (cases "x = y")
    case True
    then show ?thesis by (simp add: join_def)
  next
    case False
    with Cons.prems have "x \<in> set ys" by simp
    then obtain a b where ys: "ys = a @ x # b" by (auto dest: split_list)
    have "join sep (y # ys) =
            (y @ concat (map (\<lambda>z. sep @ z) a) @ sep) @ x @ concat (map (\<lambda>z. sep @ z) b)"
      by (simp add: join_def ys)
    then show ?thesis by (simp only: sublist_appendI)
  qed
qed

lemma contentElement_rendered:
  "sublist (contentElement item) (renderItem parse now item)"
proof -
  let ?line = "''      '' @ contentElement item"
  have "sublist ?line (renderItem parse now item)"
    unfolding renderItem_def Let_def
    by (rule sublist_join)
       (simp add: truthy_def List.map_filter_simps del: replace_all.simps)
  moreover have "sublist (contentElement item) ?line"
    by (rule sublist_append_leftI)
  ultimately show ?thesis
    by (rule sublist_order.order.trans [rotated])
qed


lemma esc_Nil: "esc [] = []"
  by (simp add: lit_def starts_with_def)

lemma esc_match:
  "esc (CHR '']'' # CHR '']'' # CHR ''>'' # v) = '']]]]><![CDATA[>'' @ esc v"
  by (subst replace_all.simps) (simp add: lit_def starts_with_def)

lemma esc_skip:
  "\<not> starts_with '']]>'' (c # cs) \<Longrightarrow> esc (c # cs) = c # esc cs"
  by (subst replace_all.simps) (simp add: lit_def)

lemma starts_with_terminator:
  assumes "starts_with '']]>'' s"
  obtains v where "s = CHR '']'' # CHR '']'' # CHR ''>'' # v"
proof (cases s)
  case Nil
  with assms show ?thesis by (simp add: starts_with_def)
next
  case (Cons a s1)
  show ?thesis
  proof (cases s1)
    case Nil
    with assms Cons show ?thesis by (simp add: starts_with_def)
  next
    case (Cons b s2)
    with assms \<open>s = a # s1\<close> that show ?thesis
      by (cases s2) (simp_all add: starts_with_def)
  qed
qed

lemma hd_esc: "esc (c # cs) @ t = c # tl (esc (c # cs) @ t)"
proof (cases "starts_with '']]>'' (c # cs)")
  case True
  then obtain v where "c # cs = CHR '']'' # CHR '']'' # CHR ''>'' # v"
    by (rule starts_with_terminator)
  then show ?thesis by (simp add: esc_match del: replace_all.simps)
next
  case False
  then show ?thesis by (simp add: esc_skip del: replace_all.simps)
qed

lemma not_start_esc:
  assumes "\<not> starts_with '']]>'' (c # cs)"
  shows "\<not> starts_with '']]>'' (c # esc cs @ '']]>'' @ rest)"
proof (cases cs)
  case Nil
  then show ?thesis by (simp add: esc_Nil starts_with_def del: replace_all.simps)
next
  case (Cons d ds)
  note cs = this
  show ?thesis
  proof (cases "starts_with '']]>'' cs")
    case True
    then obtain v where "cs = CHR '']'' # CHR '']'' # CHR ''>'' # v"
      by (rule starts_with_terminator)
    then show ?thesis by (simp add: esc_match starts_with_def del: replace_all.simps)
  next
    case False
    then have e: "esc cs = d # esc ds" using cs by (simp add: esc_skip del: replace_all.simps)
    show ?thesis
    proof (cases ds)
      case Nil
      then show ?thesis using e by (simp add: esc_Nil starts_with_def del: replace_all.simps)
    next
      case (Cons x xs)
      have "esc ds @ '']]>'' @ rest = x # tl (esc ds @ '']]>'' @ rest)"
        unfolding Cons by (rule hd_esc)
      then obtain w where "esc ds @ '']]>'' @ rest = x # w" by blast
      then show ?thesis
        using assms cs Cons e by (simp add: starts_with_def del: replace_all.simps)
    qed
  qed
qed

lemma read_inside_end: "read_sections True ('']]>'' @ rest) = read_sections False rest"
  by (subst read_sections.simps) (simp add: starts_with_def del: read_sections.simps)

lemma read_inside_char:
  "\<not> starts_with '']]>'' (c # s) \<Longrightarrow>
   read_sections True (c # s) =
     (case read_sections True s of None \<Rightarrow> None | Some (x, r) \<Rightarrow> Some (c # x, r))"
  by (subst read_sections.simps) (simp del: read_sections.simps)

lemma read_outside_open:
  "read_sections False (''<![CDATA['' @ s) = read_sections True s"
  by (subst read_sections.simps) (simp add: starts_with_def del: read_sections.simps)

lemma read_outside_other:
  "\<not> starts_with ''<![CDATA['' s \<Longrightarrow> read_sections False s = Some ([], s)"
  by (subst read_sections.simps) (simp del: read_sections.simps)

lemma read_escaped:
  assumes "\<not> starts_with ''<![CDATA['' rest"
  shows "read_sections True (esc v @ '']]>'' @ rest) = Some (v, rest)"
proof (induction v rule: length_induct)
  case (1 v)
  show ?case
  proof (cases v)
    case Nil
    then show ?thesis
      using read_inside_end [of rest] read_outside_other [OF assms]
      by (simp add: esc_Nil del: replace_all.simps read_sections.simps)
  next
    case (Cons c cs)
    show ?thesis
    proof (cases "starts_with '']]>'' v")
      case True
      then obtain w where v: "v = CHR '']'' # CHR '']'' # CHR ''>'' # w"
        by (rule starts_with_terminator)
      then have ih: "read_sections True (esc w @ '']]>'' @ rest) = Some (w, rest)"
        using 1 by simp
      have a: "read_sections True ('']]]]><![CDATA[>'' @ esc w @ '']]>'' @ rest) =
            (case read_sections True (CHR '']'' # '']]><![CDATA[>'' @ esc w @ '']]>'' @ rest) of
               None \<Rightarrow> None | Some (x, r) \<Rightarrow> Some (CHR '']'' # x, r))"
        using read_inside_char [of "CHR '']''" "CHR '']'' # '']]><![CDATA[>'' @ esc w @ '']]>'' @ rest"]
        by (simp add: starts_with_def del: replace_all.simps read_sections.simps)
      have b: "read_sections True (CHR '']'' # '']]><![CDATA[>'' @ esc w @ '']]>'' @ rest) =
            (case read_sections True ('']]><![CDATA[>'' @ esc w @ '']]>'' @ rest) of
               None \<Rightarrow> None | Some (x, r) \<Rightarrow> Some (CHR '']'' # x, r))"
        using read_inside_char [of "CHR '']''" "'']]><![CDATA[>'' @ esc w @ '']]>'' @ rest"]
        by (simp add: starts_with_def del: replace_all.simps read_sections.simps)
      have c: "read_sections True ('']]><![CDATA[>'' @ esc w @ '']]>'' @ rest) =
               read_sections True (CHR ''>'' # esc w @ '']]>'' @ rest)"
        using read_inside_end [of "''<![CDATA[>'' @ esc w @ '']]>'' @ rest"]
          read_outside_open [of "CHR ''>'' # esc w @ '']]>'' @ rest"]
        by (simp del: replace_all.simps read_sections.simps)
      have d: "read_sections True (CHR ''>'' # esc w @ '']]>'' @ rest) =
            (case read_sections True (esc w @ '']]>'' @ rest) of
               None \<Rightarrow> None | Some (x, r) \<Rightarrow> Some (CHR ''>'' # x, r))"
        using read_inside_char [of "CHR ''>''" "esc w @ '']]>'' @ rest"]
        by (simp add: starts_with_def del: replace_all.simps read_sections.simps)
      show ?thesis
        unfolding v esc_match using a b c d ih
        by (simp del: replace_all.simps read_sections.simps)
    next
      case False
      then have e: "esc v = c # esc cs" using Cons by (simp add: esc_skip del: replace_all.simps)
      have n: "\<not> starts_with '']]>'' (c # esc cs @ '']]>'' @ rest)"
        using not_start_esc False Cons by simp
      have ih: "read_sections True (esc cs @ '']]>'' @ rest) = Some (cs, rest)"
        using 1 Cons by simp
      show ?thesis
        using read_inside_char [OF n] ih Cons e
        by (simp del: replace_all.simps read_sections.simps)
    qed
  qed
qed

lemma drop_prefix_length: "length p = n \<Longrightarrow> drop n (p @ r) = r"
  by simp

lemma take_prefix_length: "length p = n \<Longrightarrow> take n (p @ r) = p"
  by simp

text \<open>
  The later serializer (lines 469 to 472 and 518 to 519). For every element name and every
  value, \<^verbatim>\<open>]]>\<close> inside the value or not: behind
  the opening tag that \<^verbatim>\<open>wrapInCdata\<close> writes, a reader of CDATA sections gets back
  exactly the value and stops exactly at the closing tag. No section ends before the
  serializer's own \<^verbatim>\<open>]]>\<close>, and none is left open. The content element of an item is
  \<^verbatim>\<open>wrapInCdata\<close> of the item's HTML (or of the fallback block), and it stands in the
  text the item is rendered to.
\<close>

theorem cdata_round_trip:
  "take (length elementName + 2) (wrapInCdata elementName v) = ''<'' @ elementName @ ''>'' \<and>
   read_sections False (drop (length elementName + 2) (wrapInCdata elementName v)) =
     Some (v, ''</'' @ elementName @ ''>'') \<and>
   contentElement item =
     wrapInCdata ''content:encoded''
       (if descriptionHtml item = [] then ''<p>No release notes provided.</p>''
        else descriptionHtml item) \<and>
   sublist (contentElement item) (renderItem parse now item)"
proof -
  let ?close = "''</'' @ elementName @ ''>''"
  have w: "wrapInCdata elementName v =
             (''<'' @ elementName @ ''>'') @ ''<![CDATA['' @ esc v @ '']]>'' @ ?close"
    by (simp add: wrapInCdata_def del: replace_all.simps)
  have l: "length (''<'' @ elementName @ ''>'') = length elementName + 2"
    by simp
  have n: "\<not> starts_with ''<![CDATA['' ?close"
    by (simp add: starts_with_def)
  have "read_sections False (''<![CDATA['' @ esc v @ '']]>'' @ ?close) = Some (v, ?close)"
    unfolding read_outside_open by (rule read_escaped [OF n])
  moreover have "drop (length elementName + 2) (wrapInCdata elementName v) =
                 ''<![CDATA['' @ esc v @ '']]>'' @ ?close"
    unfolding w using l by (rule drop_prefix_length)
  moreover have "take (length elementName + 2) (wrapInCdata elementName v) =
                 ''<'' @ elementName @ ''>''"
    unfolding w using l by (rule take_prefix_length)
  moreover have "contentElement item =
     wrapInCdata ''content:encoded''
       (if descriptionHtml item = [] then ''<p>No release notes provided.</p>''
        else descriptionHtml item)"
    by (simp add: contentElement_def del: replace_all.simps)
  ultimately show ?thesis
    using contentElement_rendered [of item parse now]
    by (simp del: replace_all.simps read_sections.simps)
qed

theorem cdata_round_trip_witness:
  "wrapInCdata ''content:encoded'' ''a]]>b'' =
     ''<content:encoded><![CDATA[a]]]]><![CDATA[>b]]></content:encoded>'' \<and>
   read_sections False ''<![CDATA[a]]]]><![CDATA[>b]]></content:encoded>'' =
     Some (''a]]>b'', ''</content:encoded>'')"
proof -
  have w: "wrapInCdata ''content:encoded'' ''a]]>b'' =
     ''<content:encoded><![CDATA[a]]]]><![CDATA[>b]]></content:encoded>''"
    by code_simp
  from cdata_round_trip [of "''content:encoded''" "''a]]>b''"] w
  show ?thesis by (simp del: replace_all.simps read_sections.simps)
qed

text \<open>
  C4. The property holds of the later serializer, as shown above, and fails in the earlier
  one (lines 195 to 197), which writes the body into the CDATA section unchanged. For a
  release that qualifies and whose notes are \<^verbatim>\<open>a]]>b\<close>, the item's description is that
  text, the element written is \<^verbatim>\<open><description><![CDATA[a]]>b]]></description>\<close>, it stands
  in the feed, and a reader of CDATA sections leaves the section at the \<^verbatim>\<open>]]>\<close> of the
  body: it has read \<^verbatim>\<open>a\<close> and is left with \<^verbatim>\<open>b]]></description>\<close>. On the same value
  \<^verbatim>\<open>wrapInCdata\<close> gives a text that reads back whole.
\<close>

theorem first_description_ends_early:
  "qualifies terminator_release \<and>
   first_description (toFirstFeedItem ''a/x'' terminator_release) = ''a]]>b'' \<and>
   firstDescription ''a]]>b'' = ''<description><![CDATA[a]]>b]]></description>'' \<and>
   read_sections False ''<![CDATA[a]]>b]]></description>'' = Some (''a'', ''b]]></description>'') \<and>
   sublist ''<description><![CDATA[a]]>b]]></description>''
     (firstBuildRssFeed sample_date_parse (clock_at 0) 86400000
        [toFirstFeedItem ''a/x'' terminator_release]) \<and>
   read_sections False (drop (length ''<description>'') (wrapInCdata ''description'' ''a]]>b'')) =
     Some (''a]]>b'', ''</description>'')"
  by code_simp

section \<open>Properties of the order of the items\<close>

lemma not_after_compare:
  assumes "getTime parse a \<noteq> None" and "getTime parse b \<noteq> None"
  shows "not_after (compareItems parse a b) \<longleftrightarrow> - sortTime parse a \<le> - sortTime parse b"
  using assms by (auto simp: not_after_def compareItems_def sortTime_def)

lemma insert_by_insort:
  assumes "getTime parse x \<noteq> None" and "\<forall>y\<in>set ys. getTime parse y \<noteq> None"
  shows "insert_by (compareItems parse) x ys = insort_key (\<lambda>i. - sortTime parse i) x ys"
  using assms by (induction ys) (simp_all add: not_after_compare)

lemma set_insert_by: "set (insert_by cmp x ys) = insert x (set ys)"
  by (induction ys) auto

lemma set_array_sort: "set (array_sort cmp xs) = set xs"
  by (induction xs) (auto simp: array_sort_def set_insert_by)

lemma sortItems_sort_key:
  assumes "all_parse parse items"
  shows "sortItems parse items = sort_key (\<lambda>i. - sortTime parse i) items"
  using assms
proof (induction items)
  case Nil
  then show ?case by (simp add: sortItems_def array_sort_def)
next
  case (Cons x xs)
  then have ih: "array_sort (compareItems parse) xs = sort_key (\<lambda>i. - sortTime parse i) xs"
    and x: "getTime parse x \<noteq> None" and xs: "\<forall>y\<in>set xs. getTime parse y \<noteq> None"
    by (simp_all add: sortItems_def all_parse_def list_all_iff)
  from xs have "\<forall>y\<in>set (sort_key (\<lambda>i. - sortTime parse i) xs). getTime parse y \<noteq> None"
    by simp
  from insert_by_insort [OF x this] ih show ?case
    by (simp add: sortItems_def array_sort_def)
qed

text \<open>
  C6, as the code has it. When every timestamp present parses as a date, the sorted list
  is a rearrangement of the items in descending order of the time value the comparator
  reads, items of equal time value keep their order, and an item with no timestamp has the
  time value \<open>0\<close> of the epoch: whatever stands behind it is dated at the epoch or before
  it, so it comes after every item dated later than the epoch.
\<close>

theorem feed_order:
  assumes "all_parse parse items"
  shows "sorted_wrt (\<lambda>a b. sortTime parse b \<le> sortTime parse a) (sortItems parse items) \<and>
         mset (sortItems parse items) = mset items \<and>
         filter (\<lambda>i. sortTime parse i = t) (sortItems parse items) =
           filter (\<lambda>i. sortTime parse i = t) items \<and>
         (publishedAt item = None \<longrightarrow> getTime parse item = Some 0) \<and>
         (i < j \<and> j < length items \<and> publishedAt (sortItems parse items ! i) = None \<longrightarrow>
            sortTime parse (sortItems parse items ! j) \<le> 0)"
proof -
  let ?f = "\<lambda>i. - sortTime parse i"
  let ?s = "sortItems parse items"
  have s: "?s = sort_key ?f items" by (rule sortItems_sort_key [OF assms])
  have "sorted (map ?f (sort_key ?f items))" by (rule sorted_sort_key)
  then have o: "sorted_wrt (\<lambda>a b. sortTime parse b \<le> sortTime parse a) ?s"
    unfolding s by (simp add: sorted_map)
  have m: "mset ?s = mset items" unfolding s by simp
  have "filter (\<lambda>i. ?f i = - t) (sort_key ?f items) = filter (\<lambda>i. ?f i = - t) items"
    by (rule sort_key_stable)
  then have st: "filter (\<lambda>i. sortTime parse i = t) ?s = filter (\<lambda>i. sortTime parse i = t) items"
    unfolding s by simp
  have z: "publishedAt item = None \<longrightarrow> getTime parse item = Some 0"
    by (simp add: getTime_def)
  have l: "length ?s = length items" unfolding s by simp
  have "i < j \<and> j < length items \<and> publishedAt (?s ! i) = None \<longrightarrow> sortTime parse (?s ! j) \<le> 0"
  proof (intro impI, elim conjE)
    assume ij: "i < j" "j < length items" and n: "publishedAt (?s ! i) = None"
    from o ij l have "sortTime parse (?s ! j) \<le> sortTime parse (?s ! i)"
      by (simp add: sorted_wrt_iff_nth_less)
    moreover from n have "sortTime parse (?s ! i) = 0"
      by (simp add: sortTime_def getTime_def)
    ultimately show "sortTime parse (?s ! j) \<le> 0" by simp
  qed
  with o m st z show ?thesis by blast
qed

theorem feed_order_witness:
  "all_parse sample_date_parse [early_item, undated_item, recent_item] \<and>
   sortItems sample_date_parse [early_item, undated_item, recent_item] =
     [recent_item, undated_item, early_item] \<and>
   sorted_wrt (\<lambda>a b. sortTime sample_date_parse b \<le> sortTime sample_date_parse a)
     (sortItems sample_date_parse [early_item, undated_item, recent_item]) \<and>
   mset (sortItems sample_date_parse [early_item, undated_item, recent_item]) =
     mset [early_item, undated_item, recent_item] \<and>
   publishedAt undated_item = None \<and>
   getTime sample_date_parse undated_item = Some 0 \<and>
   sortTime sample_date_parse
     (sortItems sample_date_parse [early_item, undated_item, recent_item] ! 2) \<le> 0"
proof -
  let ?items = "[early_item, undated_item, recent_item]"
  have a: "all_parse sample_date_parse ?items"
    by code_simp
  have e: "sortItems sample_date_parse ?items = [recent_item, undated_item, early_item]"
    by code_simp
  have u: "publishedAt undated_item = None"
    by code_simp
  have n: "(1::nat) < 2 \<and> 2 < length ?items \<and>
           publishedAt (sortItems sample_date_parse ?items ! 1) = None"
    unfolding e using u by simp
  note f = feed_order [OF a, where item = undated_item and i = 1 and j = 2 and t = 0]
  have 1: "sorted_wrt (\<lambda>a b. sortTime sample_date_parse b \<le> sortTime sample_date_parse a)
       (sortItems sample_date_parse ?items)"
    using f by (rule conjunct1)
  have 2: "mset (sortItems sample_date_parse ?items) = mset ?items"
    using f by (rule conjunct2 [THEN conjunct1])
  have 3: "getTime sample_date_parse undated_item = Some 0"
    using f [THEN conjunct2, THEN conjunct2, THEN conjunct2, THEN conjunct1] u by (rule mp)
  have 4: "sortTime sample_date_parse (sortItems sample_date_parse ?items ! 2) \<le> 0"
    using f [THEN conjunct2, THEN conjunct2, THEN conjunct2, THEN conjunct2] n by (rule mp)
  from a e 1 2 u 3 4 show ?thesis
    by (intro conjI)
qed

text \<open>
  C6 as stated fails for a timestamp before the epoch: the item with no timestamp stays
  in front of the item dated 31 December 1969.
\<close>

theorem undated_before_dated_counterexample:
  "publishedAt undated_item = None \<and>
   publishedAt early_item = Some ''1969-12-31T23:59:59Z'' \<and>
   getTime sample_date_parse early_item = Some (- 1000) \<and>
   sortItems sample_date_parse [undated_item, early_item] = [undated_item, early_item]"
  by code_simp

section \<open>Properties of the text of the feed\<close>

lemma join_split:
  assumes "xs \<noteq> []" and "ys \<noteq> []"
  shows "join sep (xs @ l # ys) = (join sep xs @ sep) @ l @ (sep @ join sep ys)"
proof -
  from assms obtain x xs' y ys' where "xs = x # xs'" "ys = y # ys'"
    by (cases xs; cases ys) auto
  then show ?thesis by (simp add: join_def)
qed

lemma channelOpening_nonempty: "channelOpening \<noteq> []"
  by (simp add: channelOpening_def Let_def)

lemma buildRssFeed_split:
  "buildRssFeed parse clock b items =
     (join [CHR 0x0A] channelOpening @ [CHR 0x0A]) @ lastBuildDate b @
     ([CHR 0x0A] @ join [CHR 0x0A]
        [''    <ttl>'' @ string_of_nat SITE_TTL @ ''</ttl>'', feedItems parse clock items,
         ''  </channel>'', ''</rss>'', []])"
  unfolding buildRssFeed_def
  by (rule join_split [OF channelOpening_nonempty]) simp

lemma formatRssDate_timestamp:
  "has_timestamp item \<Longrightarrow>
   formatRssDate parse now (publishedAt item) = formatRssDate parse now' (publishedAt item)"
  by (auto simp: has_timestamp_def formatRssDate_def split: option.splits)

lemma renderItem_timestamp:
  "has_timestamp item \<Longrightarrow> renderItem parse now item = renderItem parse now' item"
  using formatRssDate_timestamp [of item parse now now']
  by (simp add: renderItem_def Let_def del: replace_all.simps)

lemma feedItems_timestamps:
  assumes "list_all has_timestamp items"
  shows "feedItems parse clock items = feedItems parse clock' items"
proof -
  have "\<forall>p\<in>set (enumerate 0 (sortItems parse items)). has_timestamp (snd p)"
  proof
    fix p assume "p \<in> set (enumerate 0 (sortItems parse items))"
    then have "snd p \<in> set (sortItems parse items)"
      using nth_mem [of "fst p" "sortItems parse items"]
      by (auto simp: in_set_enumerate_eq)
    then have "snd p \<in> set items"
      by (simp add: sortItems_def set_array_sort)
    with assms show "has_timestamp (snd p)"
      by (simp add: list_all_iff)
  qed
  then have "map (\<lambda>(i, item). renderItem parse (clock i) item) (enumerate 0 (sortItems parse items)) =
        map (\<lambda>(i, item). renderItem parse (clock' i) item) (enumerate 0 (sortItems parse items))"
    by (intro map_cong refl) (force intro: renderItem_timestamp)
  then show ?thesis unfolding feedItems_def by (rule arg_cong)
qed

text \<open>
  C7, as the code has it. When every item has a timestamp (a text that is not empty), the
  document is one fixed text before the build timestamp line and one fixed text behind it,
  whatever the clock reads during the run: two runs on the same items differ in the build
  timestamp line only. (\<^verbatim>\<open>marked\<close> and \<^verbatim>\<open>Date.parse\<close> are functions of their input.)
\<close>

theorem only_the_build_timestamp_varies:
  assumes "list_all has_timestamp items"
  shows "\<exists>pre post. \<forall>clock b. buildRssFeed parse clock b items = pre @ lastBuildDate b @ post"
proof (intro exI allI)
  fix clock b
  show "buildRssFeed parse clock b items =
     (join [CHR 0x0A] channelOpening @ [CHR 0x0A]) @ lastBuildDate b @
     ([CHR 0x0A] @ join [CHR 0x0A]
        [''    <ttl>'' @ string_of_nat SITE_TTL @ ''</ttl>'', feedItems parse (clock_at 0) items,
         ''  </channel>'', ''</rss>'', []])"
    unfolding buildRssFeed_split feedItems_timestamps [OF assms, of parse clock "clock_at 0"] ..
qed

theorem only_the_build_timestamp_varies_witness:
  "list_all has_timestamp [recent_item] \<and>
   (\<exists>pre post. \<forall>clock b.
      buildRssFeed sample_date_parse clock b [recent_item] = pre @ lastBuildDate b @ post)"
proof -
  have h: "list_all has_timestamp [recent_item]"
    by code_simp
  from only_the_build_timestamp_varies [OF h, of sample_date_parse] h
  show ?thesis by (rule_tac conjI)
qed

text \<open>
  C7 as stated fails for an item with no timestamp: its \<^verbatim>\<open>pubDate\<close> is the reading of the
  clock in the run. Two runs that read the same build timestamp, the clock one day apart
  when the item is rendered, give two documents.
\<close>

theorem pubDate_follows_the_clock_counterexample:
  "publishedAt undated_item = None \<and>
   formatRssDate sample_date_parse 0 (publishedAt undated_item) =
     ''Thu, 01 Jan 1970 00:00:00 GMT'' \<and>
   formatRssDate sample_date_parse 86400000 (publishedAt undated_item) =
     ''Fri, 02 Jan 1970 00:00:00 GMT'' \<and>
   buildRssFeed sample_date_parse (clock_at 0) 172800000 [undated_item] \<noteq>
   buildRssFeed sample_date_parse (clock_at 86400000) 172800000 [undated_item]"
  by code_simp

section \<open>Properties of the run\<close>

lemma processRepositories_acc:
  "processRepositories env repos (rs, es) =
     (rs @ concat (map (itemsOf env) repos), es @ concat (map (warningsOf env) repos))"
  by (induction repos arbitrary: rs es)
     (auto simp: itemsOf_def warningsOf_def fetched_def split: sum.splits)

lemma sublist_feedItems:
  assumes "item \<in> set items"
  shows "\<exists>i. sublist (renderItem parse (clock i) item) (feedItems parse clock items)"
proof -
  from assms have "item \<in> set (sortItems parse items)"
    by (simp add: sortItems_def set_array_sort)
  then obtain i where i: "i < length (sortItems parse items)" "sortItems parse items ! i = item"
    by (auto simp: in_set_conv_nth)
  then have "(i, item) \<in> set (enumerate 0 (sortItems parse items))"
    by (simp add: in_set_enumerate_eq)
  then have "renderItem parse (clock i) item \<in>
             set (map (\<lambda>(i, item). renderItem parse (clock i) item)
                    (enumerate 0 (sortItems parse items)))"
    by force
  then have "sublist (renderItem parse (clock i) item) (feedItems parse clock items)"
    unfolding feedItems_def by (rule sublist_concat)
  then show ?thesis ..
qed

lemma sublist_feed:
  "sublist (feedItems parse clock items) (buildRssFeed parse clock b items)"
proof -
  have "sublist (feedItems parse clock items)
          (join [CHR 0x0A]
            [''    <ttl>'' @ string_of_nat SITE_TTL @ ''</ttl>'', feedItems parse clock items,
             ''  </channel>'', ''</rss>'', []])"
    by (rule sublist_join) simp
  then show ?thesis
    unfolding buildRssFeed_split
    by (meson sublist_order.order.trans sublist_append_leftI sublist_appendI)
qed

lemma member_nonempty: "x \<in> set xs \<Longrightarrow> xs \<noteq> []"
  by auto

lemma main_completed:
  assumes "loadRepoList (CONFIG_FILE env) (config env) = Inr entries"
    and "parseConfigEntries entries = Inr repos"
    and "processRepositories env repos ([], []) = (results, errors)"
    and "writeFeed env (buildRssFeed (date_parse env) (item_clock env) (build_clock env) results) =
           None"
  shows "main env =
           \<lparr>exitCode = 0,
            written = Some (buildRssFeed (date_parse env) (item_clock env) (build_clock env) results),
            console =
              (if results = []
               then [Warn ''No major/minor releases found with current configuration.'']
               else []) @
              [Log (''RSS feed written to '' @ OUTPUT_FILE env)] @
              (if errors \<noteq> []
               then [Warn (''Some repositories could not be processed:'' @ [CHR 0x0A] @
                           join [CHR 0x0A] errors)]
               else [])\<rparr>"
  using assms by (simp add: main_def Let_def)

text \<open>
  C8. When the configuration loads, its entries parse and the feed can be written, the
  run ends with exit code \<open>0\<close> whatever the fetches do. The feed written is built from the
  results of the loop; every item of every target that was fetched is among them and its
  rendering stands in the feed; for every target whose fetch failed, the line
  \<^verbatim>\<open>- slug: message\<close> is among the errors and stands in a warning on the console. A
  target whose request gets a response that is not \<^verbatim>\<open>ok\<close>, or whose body is no list,
  fails in that way.
\<close>

theorem failed_target_is_skipped:
  assumes "loadRepoList (CONFIG_FILE env) (config env) = Inr entries"
    and "parseConfigEntries entries = Inr repos"
    and "\<forall>content. writeFeed env content = None"
  shows "exitCode (main env) = 0 \<and>
         (\<exists>results errors feed.
            processRepositories env repos ([], []) = (results, errors) \<and>
            feed = buildRssFeed (date_parse env) (item_clock env) (build_clock env) results \<and>
            written (main env) = Some feed \<and>
            (\<forall>repo items item.
               repo \<in> set repos \<and> fetched env repo = Inr items \<and> item \<in> set items \<longrightarrow>
               item \<in> set results \<and>
               (\<exists>i. sublist (renderItem (date_parse env) (item_clock env i) item) feed)) \<and>
            (\<forall>repo err.
               repo \<in> set repos \<and> fetched env repo = Inl err \<longrightarrow>
               (''- '' @ slug repo @ '': '' @ message err) \<in> set errors \<and>
               (\<exists>text. Warn text \<in> set (console (main env)) \<and>
                  sublist (''- '' @ slug repo @ '': '' @ message err) text))) \<and>
         (slugOwner (slug target) \<noteq> [] \<and> slugRepo (slug target) \<noteq> [] \<and>
          api env (releasesRequest (GITHUB_TOKEN env) target) =
            Response False status statusText json \<longrightarrow>
            fetched env target = Inl (RequestFailed (slug target) status statusText)) \<and>
         (slugOwner (slug target) \<noteq> [] \<and> slugRepo (slug target) \<noteq> [] \<and>
          api env (releasesRequest (GITHUB_TOKEN env) target) =
            Response True status statusText NotAnArray \<longrightarrow>
            fetched env target = Inl (UnexpectedFormat (slug target)))"
proof -
  let ?results = "concat (map (itemsOf env) repos)"
  let ?errors = "concat (map (warningsOf env) repos)"
  let ?feed = "buildRssFeed (date_parse env) (item_clock env) (build_clock env) ?results"
  have p: "processRepositories env repos ([], []) = (?results, ?errors)"
    by (simp add: processRepositories_acc)
  have w: "writeFeed env ?feed = None" using assms(3) by simp
  note m = main_completed [OF assms(1,2) p w]
  have e: "exitCode (main env) = 0" and f: "written (main env) = Some ?feed"
    by (simp_all add: m)
  have i: "item \<in> set ?results \<and>
           (\<exists>i. sublist (renderItem (date_parse env) (item_clock env i) item) ?feed)"
    if "repo \<in> set repos \<and> fetched env repo = Inr items \<and> item \<in> set items"
    for repo items item
  proof -
    from that have r: "item \<in> set ?results"
      by (auto simp: itemsOf_def intro!: bexI [of _ repo])
    from sublist_feedItems [OF r, of "date_parse env" "item_clock env"] obtain i where
      "sublist (renderItem (date_parse env) (item_clock env i) item)
         (feedItems (date_parse env) (item_clock env) ?results)"
      by blast
    then have "sublist (renderItem (date_parse env) (item_clock env i) item) ?feed"
      using sublist_feed [of "date_parse env" "item_clock env" ?results "build_clock env"]
      by (rule sublist_order.order.trans)
    with r show ?thesis by blast
  qed
  have x: "(''- '' @ slug repo @ '': '' @ message err) \<in> set ?errors \<and>
           (\<exists>text. Warn text \<in> set (console (main env)) \<and>
              sublist (''- '' @ slug repo @ '': '' @ message err) text)"
    if "repo \<in> set repos \<and> fetched env repo = Inl err" for repo err
  proof -
    let ?line = "''- '' @ slug repo @ '': '' @ message err"
    let ?text = "''Some repositories could not be processed:'' @ [CHR 0x0A] @
                 join [CHR 0x0A] ?errors"
    from that have l: "?line \<in> set ?errors"
      by (auto simp: warningsOf_def intro!: bexI [of _ repo])
    then have "?errors \<noteq> []" by (rule member_nonempty)
    then have c: "Warn ?text \<in> set (console (main env))"
      by (simp add: m)
    have "sublist ?line (join [CHR 0x0A] ?errors)"
      using l by (rule sublist_join)
    then have "sublist ?line ?text"
      by (meson sublist_order.order.trans sublist_append_leftI)
    with l c show ?thesis by blast
  qed
  have h: "slugOwner (slug target) \<noteq> [] \<and> slugRepo (slug target) \<noteq> [] \<and>
          api env (releasesRequest (GITHUB_TOKEN env) target) =
            Response False status statusText json \<longrightarrow>
            fetched env target = Inl (RequestFailed (slug target) status statusText)"
    by (simp add: fetched_def fetchReleasesForRepo_def)
  have n: "slugOwner (slug target) \<noteq> [] \<and> slugRepo (slug target) \<noteq> [] \<and>
          api env (releasesRequest (GITHUB_TOKEN env) target) =
            Response True status statusText NotAnArray \<longrightarrow>
            fetched env target = Inl (UnexpectedFormat (slug target))"
    by (simp add: fetched_def fetchReleasesForRepo_def)
  from p f i x have "\<exists>results errors feed.
            processRepositories env repos ([], []) = (results, errors) \<and>
            feed = buildRssFeed (date_parse env) (item_clock env) (build_clock env) results \<and>
            written (main env) = Some feed \<and>
            (\<forall>repo items item.
               repo \<in> set repos \<and> fetched env repo = Inr items \<and> item \<in> set items \<longrightarrow>
               item \<in> set results \<and>
               (\<exists>i. sublist (renderItem (date_parse env) (item_clock env i) item) feed)) \<and>
            (\<forall>repo err.
               repo \<in> set repos \<and> fetched env repo = Inl err \<longrightarrow>
               (''- '' @ slug repo @ '': '' @ message err) \<in> set errors \<and>
               (\<exists>text. Warn text \<in> set (console (main env)) \<and>
                  sublist (''- '' @ slug repo @ '': '' @ message err) text))"
    by blast
  with e h n show ?thesis by blast
qed

theorem failed_target_is_skipped_witness:
  "loadRepoList (CONFIG_FILE (sample_env three_entries)) (config (sample_env three_entries)) =
     Inr three_entries \<and>
   parseConfigEntries three_entries =
     Inr [\<lparr>slug = ''a/x'', maxReleases = 10\<rparr>, \<lparr>slug = ''down/y'', maxReleases = 3\<rparr>,
          \<lparr>slug = ''b/z'', maxReleases = 1\<rparr>] \<and>
   (\<forall>content. writeFeed (sample_env three_entries) content = None) \<and>
   fetched (sample_env three_entries) \<lparr>slug = ''down/y'', maxReleases = 3\<rparr> =
     Inl (RequestFailed ''down/y'' 404 ''Not Found'') \<and>
   fetched (sample_env three_entries) \<lparr>slug = ''b/z'', maxReleases = 1\<rparr> =
     Inr [toFeedItem sample_marked ''b/z'' (sample_release ''v5.0.0'' None)] \<and>
   exitCode (main (sample_env three_entries)) = 0 \<and>
   (\<exists>text. Warn text \<in> set (console (main (sample_env three_entries))) \<and>
      sublist ''- down/y: GitHub API request failed for down/y: 404 Not Found'' text) \<and>
   (\<exists>feed i. written (main (sample_env three_entries)) = Some feed \<and>
      sublist (renderItem sample_date_parse (clock_at 86400000 i)
                 (toFeedItem sample_marked ''b/z'' (sample_release ''v5.0.0'' None))) feed)"
proof -
  let ?env = "sample_env three_entries"
  let ?down = "\<lparr>slug = ''down/y'', maxReleases = 3\<rparr>"
  let ?bz = "\<lparr>slug = ''b/z'', maxReleases = 1\<rparr>"
  let ?repos = "[\<lparr>slug = ''a/x'', maxReleases = 10\<rparr>, ?down, ?bz]"
  let ?item = "toFeedItem sample_marked ''b/z'' (sample_release ''v5.0.0'' None)"
  have l: "loadRepoList (CONFIG_FILE ?env) (config ?env) = Inr three_entries"
    by (simp add: loadRepoList_def sample_env_def)
  have c: "parseConfigEntries three_entries = Inr ?repos"
    by (simp add: three_entries_def DEFAULT_MAX_RELEASES_PER_REPO_def)
  have w: "\<forall>content. writeFeed ?env content = None"
    by (simp add: sample_env_def written_ok_def)
  have d: "fetched ?env ?down = Inl (RequestFailed ''down/y'' 404 ''Not Found'')"
    by code_simp
  have b: "fetched ?env ?bz = Inr [?item]"
    by code_simp
  have m: "''- '' @ slug ?down @ '': '' @ message (RequestFailed ''down/y'' 404 ''Not Found'') =
           ''- down/y: GitHub API request failed for down/y: 404 Not Found''"
    by code_simp
  have s: "date_parse ?env = sample_date_parse" "item_clock ?env = clock_at 86400000"
    by (simp_all add: sample_env_def)
  from failed_target_is_skipped [OF l c w] obtain results errors feed where
    e: "exitCode (main ?env) = 0"
    and f: "written (main ?env) = Some feed"
    and i: "\<forall>repo items item.
               repo \<in> set ?repos \<and> fetched ?env repo = Inr items \<and> item \<in> set items \<longrightarrow>
               item \<in> set results \<and>
               (\<exists>i. sublist (renderItem (date_parse ?env) (item_clock ?env i) item) feed)"
    and x: "\<forall>repo err.
               repo \<in> set ?repos \<and> fetched ?env repo = Inl err \<longrightarrow>
               (''- '' @ slug repo @ '': '' @ message err) \<in> set errors \<and>
               (\<exists>text. Warn text \<in> set (console (main ?env)) \<and>
                  sublist (''- '' @ slug repo @ '': '' @ message err) text)"
    by blast
  from x [rule_format, of ?down "RequestFailed ''down/y'' 404 ''Not Found''"] d
  have "\<exists>text. Warn text \<in> set (console (main ?env)) \<and>
          sublist (''- '' @ slug ?down @ '': '' @ message (RequestFailed ''down/y'' 404 ''Not Found''))
            text"
    by simp
  then have t: "\<exists>text. Warn text \<in> set (console (main ?env)) \<and>
      sublist ''- down/y: GitHub API request failed for down/y: 404 Not Found'' text"
    unfolding m .
  from i [rule_format, of ?bz "[?item]" ?item] b
  have "\<exists>i. sublist (renderItem (date_parse ?env) (item_clock ?env i) ?item) feed"
    by simp
  with f have r: "\<exists>feed i. written (main ?env) = Some feed \<and>
      sublist (renderItem sample_date_parse (clock_at 86400000 i) ?item) feed"
    unfolding s by blast
  from l c w d b e t r show ?thesis by (intro conjI)
qed

end
